theory Spec2Isabelle
  imports Complex_Main
begin

text \<open>
  The financial core of the loan calculator in \<open>app.js\<close>: the annuity functions
  \<open>calculateEMI\<close> and \<open>calculateRemainingMonths\<close>, the baseline schedule of
  \<open>generateBaseline\<close>, and the month loop of \<open>applyUserChanges\<close> with its
  disbursements, prepayments and rate changes. What these functions read from the page
  is a parameter here, and what they write to it is a result.
\<close>

section \<open>JavaScript numbers\<close>

text \<open>
  The calculator computes with JavaScript numbers. They are modelled as exact reals
  extended with the three non-finite values a JavaScript operation can return, so that
  a division by zero, a logarithm of a non-positive number and the \<open>Infinity\<close> that
  \<open>calculateRemainingMonths\<close> returns are values of the model. Rounding and overflow
  of IEEE doubles are not modelled (every finite operation is exact), and neither is
  the sign of zero (a zero divisor counts as \<open>+0\<close>).
\<close>

datatype number = Fin real | PInf | NInf | NaN

fun num_neg :: "number \<Rightarrow> number" where
  "num_neg (Fin a) = Fin (- a)"
| "num_neg PInf = NInf"
| "num_neg NInf = PInf"
| "num_neg NaN = NaN"

fun num_add :: "number \<Rightarrow> number \<Rightarrow> number" where
  "num_add (Fin a) (Fin b) = Fin (a + b)"
| "num_add NaN _ = NaN"
| "num_add _ NaN = NaN"
| "num_add PInf NInf = NaN"
| "num_add NInf PInf = NaN"
| "num_add PInf _ = PInf"
| "num_add _ PInf = PInf"
| "num_add NInf _ = NInf"
| "num_add _ NInf = NInf"

definition num_sub :: "number \<Rightarrow> number \<Rightarrow> number" where
  "num_sub a b = num_add a (num_neg b)"

fun num_mul :: "number \<Rightarrow> number \<Rightarrow> number" where
  "num_mul (Fin a) (Fin b) = Fin (a * b)"
| "num_mul NaN _ = NaN"
| "num_mul _ NaN = NaN"
| "num_mul (Fin a) PInf = (if a = 0 then NaN else if 0 < a then PInf else NInf)"
| "num_mul (Fin a) NInf = (if a = 0 then NaN else if 0 < a then NInf else PInf)"
| "num_mul PInf (Fin b) = (if b = 0 then NaN else if 0 < b then PInf else NInf)"
| "num_mul NInf (Fin b) = (if b = 0 then NaN else if 0 < b then NInf else PInf)"
| "num_mul PInf PInf = PInf"
| "num_mul PInf NInf = NInf"
| "num_mul NInf PInf = NInf"
| "num_mul NInf NInf = PInf"

fun num_div :: "number \<Rightarrow> number \<Rightarrow> number" where
  "num_div (Fin a) (Fin b) =
     (if b \<noteq> 0 then Fin (a / b)
      else if 0 < a then PInf else if a < 0 then NInf else NaN)"
| "num_div NaN _ = NaN"
| "num_div _ NaN = NaN"
| "num_div (Fin a) _ = Fin 0"
| "num_div PInf (Fin b) = (if 0 \<le> b then PInf else NInf)"
| "num_div NInf (Fin b) = (if 0 \<le> b then NInf else PInf)"
| "num_div _ _ = NaN"

text \<open>The comparisons \<open><\<close>, \<open><=\<close>, \<open>></\<close> and \<open>===\<close>: all false on \<open>NaN\<close>.\<close>

fun num_lt :: "number \<Rightarrow> number \<Rightarrow> bool" where
  "num_lt (Fin a) (Fin b) = (a < b)"
| "num_lt NaN _ = False"
| "num_lt _ NaN = False"
| "num_lt _ NInf = False"
| "num_lt NInf _ = True"
| "num_lt PInf _ = False"
| "num_lt _ PInf = True"

fun num_le :: "number \<Rightarrow> number \<Rightarrow> bool" where
  "num_le (Fin a) (Fin b) = (a \<le> b)"
| "num_le NaN _ = False"
| "num_le _ NaN = False"
| "num_le NInf _ = True"
| "num_le _ PInf = True"
| "num_le _ _ = False"

definition num_gt :: "number \<Rightarrow> number \<Rightarrow> bool" where
  "num_gt a b = num_lt b a"

definition num_eq :: "number \<Rightarrow> number \<Rightarrow> bool" where
  "num_eq a b = (a \<noteq> NaN \<and> a = b)"

text \<open>\<open>!x\<close> is true of \<open>0\<close> and \<open>NaN\<close>; \<open>x || 0\<close> replaces those two by \<open>0\<close>.\<close>

definition falsy :: "number \<Rightarrow> bool" where
  "falsy x = (x = NaN \<or> x = Fin 0)"

definition or0 :: "number \<Rightarrow> number" where
  "or0 x = (if falsy x then Fin 0 else x)"

fun isFinite :: "number \<Rightarrow> bool" where
  "isFinite (Fin a) = True"
| "isFinite _ = False"

text \<open>\<open>Math.pow\<close> at an integer exponent, which is all the calculator passes.\<close>

fun Math_pow :: "number \<Rightarrow> int \<Rightarrow> number" where
  "Math_pow (Fin x) n = (if x = 0 \<and> n < 0 then PInf else Fin (x powi n))"
| "Math_pow NaN n = (if n = 0 then Fin 1 else NaN)"
| "Math_pow PInf n = (if n = 0 then Fin 1 else if 0 < n then PInf else Fin 0)"
| "Math_pow NInf n =
     (if n = 0 then Fin 1 else if n < 0 then Fin 0 else if even n then PInf else NInf)"

fun Math_log :: "number \<Rightarrow> number" where
  "Math_log (Fin x) = (if 0 < x then Fin (ln x) else if x = 0 then NInf else NaN)"
| "Math_log PInf = PInf"
| "Math_log _ = NaN"

fun Math_ceil :: "number \<Rightarrow> number" where
  "Math_ceil (Fin x) = Fin (of_int \<lceil>x\<rceil>)"
| "Math_ceil x = x"

fun Math_abs :: "number \<Rightarrow> number" where
  "Math_abs (Fin x) = Fin \<bar>x\<bar>"
| "Math_abs NaN = NaN"
| "Math_abs _ = PInf"

definition Math_max :: "number \<Rightarrow> number \<Rightarrow> number" where
  "Math_max a b = (if a = NaN \<or> b = NaN then NaN else if num_lt a b then b else a)"

section \<open>Annuity mathematics\<close>

text \<open>
  \<open>calculateEMI(principal, monthlyRate, months)\<close>. Every caller passes an integer
  number of months (a parsed tenure, or a target month minus the month counter). The
  source's \<open>principal\<close> is \<open>princ\<close> in the functions of this theory, where
  \<open>principal\<close> is the field of a row; likewise its local \<open>interest\<close> is \<open>intr\<close>.
\<close>

definition calculateEMI :: "number \<Rightarrow> number \<Rightarrow> int \<Rightarrow> number" where
  "calculateEMI princ monthlyRate months =
     (if months \<le> 0 then Fin 0
      else if falsy princ \<or> num_le princ (Fin 0) then Fin 0
      else if num_eq monthlyRate (Fin 0) then num_div princ (Fin (of_int months))
      else
        let r = monthlyRate;
            pow = Math_pow (num_add (Fin 1) r) months
        in num_div (num_mul (num_mul princ r) pow) (num_sub pow (Fin 1)))"

definition calculateRemainingMonths :: "number \<Rightarrow> number \<Rightarrow> number \<Rightarrow> number" where
  "calculateRemainingMonths princ emi monthlyRate =
     (if num_le princ (Fin 0) then Fin 0
      else if num_le emi (Fin 0) then PInf
      else if num_eq monthlyRate (Fin 0) then Math_ceil (num_div princ emi)
      else
        let monthlyInterest = num_mul princ monthlyRate
        in if num_le emi (num_add monthlyInterest (Fin (1 / 10 ^ 12))) then PInf
           else
             let numerator = Math_log (num_div emi (num_sub emi (num_mul princ monthlyRate)));
                 denominator = Math_log (num_add (Fin 1) monthlyRate)
             in num_div numerator denominator)"

section \<open>The schedule\<close>

text \<open>
  One row of a schedule, as both generators push it. The row's \<open>monthLabel\<close>, a
  formatted date, carries no financial content and is left out.
\<close>

record row =
  monthIndex :: int
  emi :: number
  interest :: number
  principal :: number
  disbursement :: number
  prepayment :: number
  roiChange :: "number option"
  balance :: number

subsection \<open>generateBaseline\<close>

text \<open>
  The loop variables of \<open>generateBaseline\<close> are the running \<open>balance\<close>,
  \<open>totalInterest\<close> and \<open>rows\<close>. One pass of the loop body returns them updated,
  with the truth value of the \<open>break\<close> test.
\<close>

definition baseline_month ::
  "number \<Rightarrow> number \<Rightarrow> int \<Rightarrow> number \<times> number \<times> row list
     \<Rightarrow> (number \<times> number \<times> row list) \<times> bool" where
  "baseline_month monthlyRate baselineEMI i v =
     (case v of (bal0, totalInterest0, rows) \<Rightarrow>
        let intr = num_mul bal0 monthlyRate;
            princ0 = num_sub baselineEMI intr;
            princ1 = (if num_lt princ0 (Fin 0) then Fin 0 else princ0);
            princ = (if num_gt princ1 bal0 then bal0 else princ1);
            bal1 = num_sub bal0 princ;
            totalInterest1 = num_add totalInterest0 intr;
            r = \<lparr>monthIndex = i, emi = baselineEMI, interest = intr, principal = princ,
                  disbursement = Fin 0, prepayment = Fin 0, roiChange = None,
                  balance = Math_max bal1 (Fin 0)\<rparr>
        in ((bal1, totalInterest1, rows @ [r]), num_le bal1 (Fin 0.0001)))"

function baseline_loop ::
  "number \<Rightarrow> number \<Rightarrow> int \<Rightarrow> int \<Rightarrow> number \<times> number \<times> row list
     \<Rightarrow> number \<times> number \<times> row list" where
  "baseline_loop monthlyRate baselineEMI n i v =
     (if i \<le> n then
        (if snd (baseline_month monthlyRate baselineEMI i v)
         then fst (baseline_month monthlyRate baselineEMI i v)
         else baseline_loop monthlyRate baselineEMI n (i + 1)
                (fst (baseline_month monthlyRate baselineEMI i v)))
      else v)"
  by pat_completeness auto
termination
  by (relation "measure (\<lambda>(monthlyRate, baselineEMI, n, i, v). nat (n + 1 - i))") auto

text \<open>
  \<open>generateBaseline\<close> reads the loan amount, the annual rate and the tenure from the
  form; they are the parameters here. It returns the rows (\<open>originalSchedule\<close>) and
  the total interest.
\<close>

definition generateBaseline :: "number \<Rightarrow> number \<Rightarrow> int \<Rightarrow> row list \<times> number" where
  "generateBaseline loanAmount roiStart n =
     (let P = or0 loanAmount;
          annualRate = or0 roiStart;
          monthlyRate = num_div (num_div annualRate (Fin 12)) (Fin 100);
          baselineEMI = calculateEMI P monthlyRate n
      in case baseline_loop monthlyRate baselineEMI n 1 (P, Fin 0, []) of
           (bal1, totalInterest1, rows) \<Rightarrow> (rows, totalInterest1))"

subsection \<open>applyUserChanges\<close>

text \<open>
  The three maps that \<open>applyUserChanges\<close> fills from the table's input fields are
  keyed by the field's \<open>data-idx\<close>, the row's position counted from 0. A lookup of
  an absent key followed by \<open>|| 0\<close> gives 0.
\<close>

type_synonym inputs = "int \<rightharpoonup> number"

definition get_or0 :: "inputs \<Rightarrow> int \<Rightarrow> number" where
  "get_or0 m k = (case m k of None \<Rightarrow> Fin 0 | Some v \<Rightarrow> or0 v)"

text \<open>
  The variables that live across the months of the walk. \<open>bal\<close> is the source's
  \<open>balance\<close> (the name is the row's field here). \<open>targetRemainingMonths\<close> only ever
  holds integers: the parsed tenure, or the month counter plus a \<open>Math.ceil\<close> of a
  finite number.
\<close>

record walk =
  bal :: number
  monthlyRate :: number
  currentEMI :: number
  totalInterest :: number
  totalDisbursements :: number
  targetRemainingMonths :: int
  schedule :: "row list"

definition SAFE_MONTH_CAP :: int where
  "SAFE_MONTH_CAP = 5000"

text \<open>The integer that \<open>Math.ceil\<close> of a finite number is.\<close>

fun ceil_int :: "number \<Rightarrow> int" where
  "ceil_int (Fin x) = \<lceil>x\<rceil>"
| "ceil_int _ = 0"

text \<open>\<open>if (isFinite(m)) targetRemainingMonths = monthCount + Math.ceil(m)\<close>.\<close>

definition retarget :: "int \<Rightarrow> number \<Rightarrow> int \<Rightarrow> int" where
  "retarget monthCount m target =
     (if isFinite m then monthCount + ceil_int (Math_ceil m) else target)"

text \<open>Steps 1 to 4 of a month: interest, principal, and the net disbursement.\<close>

definition month_interest :: "walk \<Rightarrow> number" where
  "month_interest w = num_mul (bal w) (monthlyRate w)"

definition month_principal :: "walk \<Rightarrow> number" where
  "month_principal w =
     (let princ0 = num_sub (currentEMI w) (month_interest w);
          princ1 = (if num_lt princ0 (Fin 0) then Fin 0 else princ0)
      in if num_gt princ1 (bal w) then bal w else princ1)"

definition month_balance :: "walk \<Rightarrow> number \<Rightarrow> number" where
  "month_balance w netDisbursement =
     (let bal1 = num_sub (bal w) (month_principal w)
      in if num_gt netDisbursement (Fin 0) then num_add bal1 netDisbursement
         else if num_lt netDisbursement (Fin 0)
              then Math_max (Fin 0) (num_add bal1 netDisbursement)
         else bal1)"

text \<open>
  The body of the month loop: the variables after the month, and whether the
  safety check at the end of the body breaks out of the loop. \<open>emiChanged\<close> is the
  conjunction of the tests of the three nested \<open>if\<close>s around \<open>currentEMI = newEMI\<close>.
\<close>

definition apply_month :: "inputs \<Rightarrow> inputs \<Rightarrow> inputs \<Rightarrow> int \<Rightarrow> walk \<Rightarrow> walk \<times> bool" where
  "apply_month disbursementsMap prepaymentsMap roiMap monthCount w =
     (let idxForInputs = monthCount - 1;
          intr = month_interest w;
          princ = month_principal w;
          prepay = get_or0 prepaymentsMap idxForInputs;
          disb = get_or0 disbursementsMap idxForInputs;
          netDisbursement = num_sub disb prepay;
          bal2 = month_balance w netDisbursement;
          totalDisbursements1 =
            (if num_gt netDisbursement (Fin 0) then num_add (totalDisbursements w) disb
             else totalDisbursements w);
          totalInterest1 = num_add (totalInterest w) intr;
          oldMonthlyRate = monthlyRate w;
          roiChanged = (roiMap idxForInputs \<noteq> None);
          monthlyRate1 =
            (case roiMap idxForInputs of
               Some newAnnual \<Rightarrow> num_div (num_div newAnnual (Fin 12)) (Fin 100)
             | None \<Rightarrow> monthlyRate w);
          remainingMonths = targetRemainingMonths w - monthCount;
          newEMI = calculateEMI bal2 oldMonthlyRate remainingMonths;
          emiChanged =
            (num_gt netDisbursement (Fin 0) \<and> num_gt bal2 (Fin 0.0001) \<and>
             remainingMonths > 0 \<and> num_gt newEMI (Fin 0) \<and> isFinite newEMI);
          currentEMI1 = (if emiChanged then newEMI else currentEMI w);
          target1 =
            (if roiChanged then
               (if emiChanged
                then retarget monthCount
                       (calculateRemainingMonths bal2 currentEMI1 monthlyRate1)
                       (targetRemainingMonths w)
                else retarget monthCount
                       (calculateRemainingMonths bal2 currentEMI1 monthlyRate1)
                       (targetRemainingMonths w))
             else targetRemainingMonths w);
          target2 =
            (if num_lt netDisbursement (Fin 0) \<and> \<not> roiChanged \<and> \<not> emiChanged
             then retarget monthCount
                    (calculateRemainingMonths bal2 currentEMI1 monthlyRate1) target1
             else target1);
          r = \<lparr>monthIndex = monthCount, emi = currentEMI1, interest = intr,
                principal = princ, disbursement = disb, prepayment = prepay,
                roiChange = roiMap idxForInputs, balance = Math_max bal2 (Fin 0)\<rparr>
      in (\<lparr>bal = bal2, monthlyRate = monthlyRate1, currentEMI = currentEMI1,
            totalInterest = totalInterest1, totalDisbursements = totalDisbursements1,
            targetRemainingMonths = target2, schedule = schedule w @ [r]\<rparr>,
          num_lt (Math_abs princ) (Fin (1 / 10 ^ 12)) \<and> num_eq prepay (Fin 0) \<and>
          num_eq disb (Fin 0) \<and> num_gt bal2 (Fin 0.0001)))"

function walk_loop :: "inputs \<Rightarrow> inputs \<Rightarrow> inputs \<Rightarrow> int \<Rightarrow> walk \<Rightarrow> walk" where
  "walk_loop disbursementsMap prepaymentsMap roiMap monthCount w =
     (if monthCount \<le> SAFE_MONTH_CAP \<and> num_gt (bal w) (Fin 0.0001) then
        (if snd (apply_month disbursementsMap prepaymentsMap roiMap monthCount w)
         then fst (apply_month disbursementsMap prepaymentsMap roiMap monthCount w)
         else walk_loop disbursementsMap prepaymentsMap roiMap (monthCount + 1)
                (fst (apply_month disbursementsMap prepaymentsMap roiMap monthCount w)))
      else w)"
  by pat_completeness auto
termination
  by (relation "measure (\<lambda>(d, p, r, monthCount, w). nat (SAFE_MONTH_CAP + 1 - monthCount))")
     auto

text \<open>
  What \<open>applyUserChanges\<close> computes: the schedule and the three figures it shows
  below the table, of which \<open>shownDisbursements\<close> is the \<open>totalDisbursements\<close> of
  the walk. Its parameters are the loan amount, the starting annual rate and the
  tenure read from the form, and the three maps of the table's inputs.
\<close>

record outcome =
  currentSchedule :: "row list"
  newTotalInterest :: number
  shownDisbursements :: number
  completionMonthIndex :: nat

definition initial_walk :: "number \<Rightarrow> number \<Rightarrow> int \<Rightarrow> walk" where
  "initial_walk loanAmount roiStart originalTenure =
     (let P = or0 loanAmount;
          initialMonthlyRate = num_div (num_div roiStart (Fin 12)) (Fin 100)
      in \<lparr>bal = P, monthlyRate = initialMonthlyRate,
           currentEMI = calculateEMI P initialMonthlyRate (max 1 originalTenure),
           totalInterest = Fin 0, totalDisbursements = Fin 0,
           targetRemainingMonths = originalTenure, schedule = []\<rparr>)"

definition applyUserChanges ::
  "number \<Rightarrow> number \<Rightarrow> int \<Rightarrow> inputs \<Rightarrow> inputs \<Rightarrow> inputs \<Rightarrow> outcome" where
  "applyUserChanges loanAmount roiStart originalTenure disbursementsMap prepaymentsMap roiMap =
     (let w = walk_loop disbursementsMap prepaymentsMap roiMap 1
                (initial_walk loanAmount roiStart originalTenure)
      in \<lparr>currentSchedule = schedule w,
           newTotalInterest = foldl (\<lambda>s r. num_add s (or0 (interest r))) (Fin 0) (schedule w),
           shownDisbursements = totalDisbursements w,
           completionMonthIndex = length (schedule w)\<rparr>)"

subsection \<open>generateSummaryReport\<close>

text \<open>
  The summary report totals the disbursements again, from the rows of the current
  schedule: \<open>currentSchedule.reduce((s, r) => s + Number(r.disbursement || 0), 0)\<close>.
\<close>

definition report_totalDisbursements :: "row list \<Rightarrow> number" where
  "report_totalDisbursements rows =
     foldl (\<lambda>s r. num_add s (or0 (disbursement r))) (Fin 0) rows"

subsection \<open>The months of a walk\<close>

text \<open>
  The months that \<open>walk_loop\<close> runs, in order: each with its month counter and the
  variables at the top of the loop body. The recursion is that of \<open>walk_loop\<close>.
\<close>

function walk_months :: "inputs \<Rightarrow> inputs \<Rightarrow> inputs \<Rightarrow> int \<Rightarrow> walk \<Rightarrow> (int \<times> walk) list" where
  "walk_months disbursementsMap prepaymentsMap roiMap monthCount w =
     (if monthCount \<le> SAFE_MONTH_CAP \<and> num_gt (bal w) (Fin 0.0001) then
        (monthCount, w) #
        (if snd (apply_month disbursementsMap prepaymentsMap roiMap monthCount w)
         then []
         else walk_months disbursementsMap prepaymentsMap roiMap (monthCount + 1)
                (fst (apply_month disbursementsMap prepaymentsMap roiMap monthCount w)))
      else [])"
  by pat_completeness auto
termination
  by (relation "measure (\<lambda>(d, p, r, monthCount, w). nat (SAFE_MONTH_CAP + 1 - monthCount))")
     auto

text \<open>The months of a whole run of \<open>applyUserChanges\<close>.\<close>

definition run_months ::
  "number \<Rightarrow> number \<Rightarrow> int \<Rightarrow> inputs \<Rightarrow> inputs \<Rightarrow> inputs \<Rightarrow> (int \<times> walk) list" where
  "run_months loanAmount roiStart originalTenure disbursementsMap prepaymentsMap roiMap =
     walk_months disbursementsMap prepaymentsMap roiMap 1
       (initial_walk loanAmount roiStart originalTenure)"

text \<open>The loop test of \<open>walk_loop\<close>.\<close>

definition running :: "int \<Rightarrow> walk \<Rightarrow> bool" where
  "running monthCount w = (monthCount \<le> SAFE_MONTH_CAP \<and> num_gt (bal w) (Fin 0.0001))"

text \<open>The row that a month pushes onto the schedule.\<close>

definition emitted_row :: "inputs \<Rightarrow> inputs \<Rightarrow> inputs \<Rightarrow> int \<Rightarrow> walk \<Rightarrow> row" where
  "emitted_row disbursementsMap prepaymentsMap roiMap monthCount w =
     last (schedule (fst (apply_month disbursementsMap prepaymentsMap roiMap monthCount w)))"

text \<open>
  The contract of the inputs: the loan amount, the starting rate and every
  disbursement, prepayment and new rate that is present are finite and not negative.
\<close>

fun finite_nonneg :: "number \<Rightarrow> bool" where
  "finite_nonneg (Fin x) = (0 \<le> x)"
| "finite_nonneg _ = False"

definition non_negative :: "inputs \<Rightarrow> bool" where
  "non_negative m = (\<forall>k v. m k = Some v \<longrightarrow> finite_nonneg v)"

text \<open>The variables of a walk on such inputs stay finite, balance and rate not negative.\<close>

definition sound :: "walk \<Rightarrow> bool" where
  "sound w = (finite_nonneg (bal w) \<and> finite_nonneg (monthlyRate w) \<and> isFinite (currentEMI w))"

subsection \<open>The specification's arithmetic\<close>

text \<open>A balance after a net disbursement, floored at 0 when the net amount is negative.\<close>

definition apply_net :: "real \<Rightarrow> real \<Rightarrow> real" where
  "apply_net b net = (if 0 < net then b + net else if net < 0 then max 0 (b + net) else b)"

text \<open>The instalment less the interest, clamped to the interval from 0 to the balance.\<close>

definition clamp_principal :: "real \<Rightarrow> real \<Rightarrow> real \<Rightarrow> real" where
  "clamp_principal e i b = min (max (e - i) 0) b"

text \<open>
  The policy of a month that decides the instalment and the target tenure, stated by
  cases. The instalment is recomputed, over the months left to the target and at the
  rate before any change of this month, when the net disbursement is positive, the
  balance exceeds \<open>0.0001\<close>, months are left, and the recomputed value is positive and
  finite. With a new rate the target is moved to fit the instalment of the month at the
  new rate. With no new rate and a negative net disbursement the target is moved to
  fit the unchanged instalment at the unchanged rate. A target moves only to a finite
  number of months.
\<close>

definition emi_recomputed :: "int \<Rightarrow> number \<Rightarrow> number \<Rightarrow> number \<Rightarrow> int \<Rightarrow> bool" where
  "emi_recomputed monthCount netDelta balance1 oldRate target =
     (num_gt netDelta (Fin 0) \<and> num_gt balance1 (Fin 0.0001) \<and> 0 < target - monthCount \<and>
      num_gt (calculateEMI balance1 oldRate (target - monthCount)) (Fin 0) \<and>
      isFinite (calculateEMI balance1 oldRate (target - monthCount)))"

definition policy_emi :: "int \<Rightarrow> number \<Rightarrow> number \<Rightarrow> number \<Rightarrow> number \<Rightarrow> int \<Rightarrow> number" where
  "policy_emi monthCount netDelta balance1 oldRate emi0 target =
     (if emi_recomputed monthCount netDelta balance1 oldRate target
      then calculateEMI balance1 oldRate (target - monthCount) else emi0)"


text \<open>
  The monthly rate in effect at the top of the month at position \<open>i\<close> (counted from 0):
  the starting annual rate, or the latest new annual rate entered under a key below
  \<open>i\<close>, divided by 12 and by 100.
\<close>

fun rate_in_effect :: "number \<Rightarrow> inputs \<Rightarrow> nat \<Rightarrow> number" where
  "rate_in_effect roiStart roiMap 0 = num_div (num_div roiStart (Fin 12)) (Fin 100)"
| "rate_in_effect roiStart roiMap (Suc i) =
     (case roiMap (int i) of
        Some newAnnual \<Rightarrow> num_div (num_div newAnnual (Fin 12)) (Fin 100)
      | None \<Rightarrow> rate_in_effect roiStart roiMap i)"

text \<open>
  The safety check at the end of a month, read off the month's row: no principal paid,
  no prepayment, no disbursement, and a balance still above \<open>0.0001\<close>.
\<close>

definition stall_guard :: "row \<Rightarrow> bool" where
  "stall_guard r =
     (num_lt (Math_abs (principal r)) (Fin (1 / 10 ^ 12)) \<and> num_eq (prepayment r) (Fin 0) \<and>
      num_eq (disbursement r) (Fin 0) \<and> num_gt (balance r) (Fin 0.0001))"

declare walk_loop.simps [simp del] walk_months.simps [simp del] baseline_loop.simps [simp del]

section \<open>Properties of the annuity mathematics\<close>

text \<open>
  The lemmas of this section down to \<open>remaining_months_of_emi\<close> are facts of exact
  arithmetic: on finite arguments the model multiplies, divides and takes logarithms
  without rounding. The doubles of the program round: for a monthly rate \<open>r\<close> below
  \<open>1.1e-16\<close> the double \<open>1 + r\<close> is 1, so that \<open>Math.pow(1 + r, months) - 1\<close> is 0 and
  \<open>calculateEMI\<close> returns \<open>Infinity\<close>; and the quotient of logarithms that
  \<open>calculateRemainingMonths\<close> computes for an instalment over \<open>n\<close> months can lie just
  above \<open>n\<close>, as \<open>2.0000000000000004\<close> does for a principal of 1000 at a monthly rate
  of 1 over 2 months.
\<close>

lemma calculateEMI_finite_inputs:
  "calculateEMI (Fin p) (Fin r) n =
     (if n \<le> 0 \<or> p \<le> 0 then Fin 0
      else if r = 0 then Fin (p / real_of_int n)
      else num_div (Fin (p * r * (1 + r) ^ nat n)) (Fin ((1 + r) ^ nat n - 1)))"
  by (simp add: calculateEMI_def falsy_def num_eq_def num_sub_def Let_def power_int_def)

lemma growth_exceeds_one: "0 < (r::real) \<Longrightarrow> 0 < n \<Longrightarrow> 1 < (1 + r) ^ nat n"
  by (simp add: one_less_power)

lemma calculateEMI_annuity:
  assumes "0 < n" "0 < p" "0 < r"
  shows "calculateEMI (Fin p) (Fin r) n = Fin (p * r * (1 + r) ^ nat n / ((1 + r) ^ nat n - 1))"
proof -
  have "(1 + r) ^ nat n \<noteq> 1" using growth_exceeds_one[OF assms(3) assms(1)] by simp
  then show ?thesis using assms by (simp add: calculateEMI_finite_inputs)
qed









section \<open>The walk, month by month\<close>

lemma walk_loop_stop: "\<not> running m w \<Longrightarrow> walk_loop D Pm R m w = w"
  by (subst walk_loop.simps) (auto simp: running_def)

lemma walk_loop_break:
  "running m w \<Longrightarrow> snd (apply_month D Pm R m w) \<Longrightarrow>
   walk_loop D Pm R m w = fst (apply_month D Pm R m w)"
  by (subst walk_loop.simps) (auto simp: running_def)

lemma walk_loop_next:
  "running m w \<Longrightarrow> \<not> snd (apply_month D Pm R m w) \<Longrightarrow>
   walk_loop D Pm R m w = walk_loop D Pm R (m + 1) (fst (apply_month D Pm R m w))"
  by (subst walk_loop.simps) (auto simp: running_def)

lemma walk_months_stop: "\<not> running m w \<Longrightarrow> walk_months D Pm R m w = []"
  by (subst walk_months.simps) (auto simp: running_def)

lemma walk_months_break:
  "running m w \<Longrightarrow> snd (apply_month D Pm R m w) \<Longrightarrow>
   walk_months D Pm R m w = [(m, w)]"
  by (subst walk_months.simps) (auto simp: running_def)

lemma walk_months_next:
  "running m w \<Longrightarrow> \<not> snd (apply_month D Pm R m w) \<Longrightarrow>
   walk_months D Pm R m w = (m, w) # walk_months D Pm R (m + 1) (fst (apply_month D Pm R m w))"
  by (subst walk_months.simps) (auto simp: running_def)

lemma walk_induct [case_names halted stalled continued]:
  assumes "\<And>m w. \<not> running m w \<Longrightarrow> P m w"
    and "\<And>m w. running m w \<Longrightarrow> snd (apply_month D Pm R m w) \<Longrightarrow> P m w"
    and "\<And>m w. running m w \<Longrightarrow> \<not> snd (apply_month D Pm R m w) \<Longrightarrow>
            P (m + 1) (fst (apply_month D Pm R m w)) \<Longrightarrow> P m w"
  shows "P m w"
proof (induction "nat (SAFE_MONTH_CAP + 1 - m)" arbitrary: m w rule: less_induct)
  case (less m w)
  show ?case
  proof (cases "running m w")
    case False
    then show ?thesis by (rule assms(1))
  next
    case True
    show ?thesis
    proof (cases "snd (apply_month D Pm R m w)")
      case True
      with \<open>running m w\<close> show ?thesis by (rule assms(2))
    next
      case False
      have "nat (SAFE_MONTH_CAP + 1 - (m + 1)) < nat (SAFE_MONTH_CAP + 1 - m)"
        using \<open>running m w\<close> by (simp add: running_def)
      then have "P (m + 1) (fst (apply_month D Pm R m w))"
        by (rule less)
      with \<open>running m w\<close> False show ?thesis by (rule assms(3))
    qed
  qed
qed

lemma schedule_apply_month:
  "schedule (fst (apply_month D Pm R m w)) = schedule w @ [emitted_row D Pm R m w]"
  by (simp add: emitted_row_def apply_month_def Let_def)

lemma walk_loop_schedule:
  "schedule (walk_loop D Pm R m w) =
     schedule w @ map (\<lambda>(m, s). emitted_row D Pm R m s) (walk_months D Pm R m w)"
proof (induction m w rule: walk_induct[where D=D and Pm=Pm and R=R])
  case (halted m w)
  then show ?case by (simp add: walk_loop_stop walk_months_stop)
next
  case (stalled m w)
  then show ?case by (simp add: walk_loop_break walk_months_break schedule_apply_month)
next
  case (continued m w)
  then show ?case by (simp add: walk_loop_next walk_months_next schedule_apply_month)
qed

lemma walk_months_length:
  "length (walk_months D Pm R m w) \<le> nat (SAFE_MONTH_CAP + 1 - m)"
proof (induction m w rule: walk_induct[where D=D and Pm=Pm and R=R])
  case (halted m w)
  then show ?case by (simp add: walk_months_stop)
next
  case (stalled m w)
  then show ?case by (auto simp add: walk_months_break running_def)
next
  case (continued m w)
  then show ?case by (auto simp add: walk_months_next running_def)
qed

text \<open>The month counters are consecutive.\<close>

lemma walk_months_counter:
  "i < length (walk_months D Pm R m w) \<Longrightarrow> fst (walk_months D Pm R m w ! i) = m + int i"
proof (induction m w arbitrary: i rule: walk_induct[where D=D and Pm=Pm and R=R])
  case (halted m w)
  then show ?case by (simp add: walk_months_stop)
next
  case (stalled m w)
  then show ?case by (simp add: walk_months_break)
next
  case (continued m w)
  show ?case
  proof (cases i)
    case 0
    then show ?thesis using continued.hyps by (simp add: walk_months_next)
  next
    case (Suc j)
    then show ?thesis using continued.hyps continued.prems continued.IH[of j]
      by (simp add: walk_months_next)
  qed
qed

lemma walk_months_first:
  "0 < length (walk_months D Pm R m w) \<Longrightarrow> walk_months D Pm R m w ! 0 = (m, w)"
  by (cases "running m w"; cases "snd (apply_month D Pm R m w)")
     (simp_all add: walk_months_stop walk_months_break walk_months_next)

text \<open>Each month starts from the variables the month before left, and that month did not break.\<close>

lemma walk_months_chain:
  "Suc i < length (walk_months D Pm R m w) \<Longrightarrow>
   snd (walk_months D Pm R m w ! Suc i) =
     fst (apply_month D Pm R (fst (walk_months D Pm R m w ! i)) (snd (walk_months D Pm R m w ! i)))"
proof (induction m w arbitrary: i rule: walk_induct[where D=D and Pm=Pm and R=R])
  case (halted m w)
  then show ?case by (simp add: walk_months_stop)
next
  case (stalled m w)
  then show ?case by (simp add: walk_months_break)
next
  case (continued m w)
  let ?w' = "fst (apply_month D Pm R m w)"
  have unfold: "walk_months D Pm R m w = (m, w) # walk_months D Pm R (m + 1) ?w'"
    using continued.hyps by (simp add: walk_months_next)
  show ?case
  proof (cases i)
    case 0
    then have "0 < length (walk_months D Pm R (m + 1) ?w')"
      using continued.prems unfold by simp
    then show ?thesis using 0 unfold walk_months_first by simp
  next
    case (Suc j)
    then show ?thesis using continued.prems continued.IH[of j] unfold by simp
  qed
qed

lemma walk_months_running:
  "(m', w') \<in> set (walk_months D Pm R m w) \<Longrightarrow> running m' w'"
proof (induction m w rule: walk_induct[where D=D and Pm=Pm and R=R])
  case (halted m w)
  then show ?case by (simp add: walk_months_stop)
next
  case (stalled m w)
  then show ?case by (simp add: walk_months_break)
next
  case (continued m w)
  then show ?case by (auto simp add: walk_months_next)
qed

text \<open>A property that every month keeps holds at the top of every month.\<close>

lemma walk_months_invariant:
  assumes "\<And>m w. running m w \<Longrightarrow> I w \<Longrightarrow> I (fst (apply_month D Pm R m w))"
  shows "I w \<Longrightarrow> (m', w') \<in> set (walk_months D Pm R m w) \<Longrightarrow> I w'"
proof (induction m w rule: walk_induct[where D=D and Pm=Pm and R=R])
  case (halted m w)
  then show ?case by (simp add: walk_months_stop)
next
  case (stalled m w)
  then show ?case by (simp add: walk_months_break)
next
  case (continued m w)
  then show ?case using assms by (auto simp add: walk_months_next)
qed

text \<open>Where the walk ends: after its last month, which broke out or left the loop test false.\<close>

lemma walk_loop_last:
  "walk_months D Pm R m w \<noteq> [] \<Longrightarrow>
   walk_loop D Pm R m w =
     fst (apply_month D Pm R (fst (last (walk_months D Pm R m w)))
            (snd (last (walk_months D Pm R m w)))) \<and>
   (snd (apply_month D Pm R (fst (last (walk_months D Pm R m w)))
            (snd (last (walk_months D Pm R m w)))) \<or>
    \<not> running (fst (last (walk_months D Pm R m w)) + 1) (walk_loop D Pm R m w))"
proof (induction m w rule: walk_induct[where D=D and Pm=Pm and R=R])
  case (halted m w)
  then show ?case by (simp add: walk_months_stop)
next
  case (stalled m w)
  then show ?case by (simp add: walk_months_break walk_loop_break)
next
  case (continued m w)
  let ?w' = "fst (apply_month D Pm R m w)"
  show ?case
  proof (cases "walk_months D Pm R (m + 1) ?w' = []")
    case True
    then have "\<not> running (m + 1) ?w'"
      by (cases "snd (apply_month D Pm R (m + 1) ?w')")
         (auto simp add: walk_months_break walk_months_next)
    then show ?thesis using continued.hyps True
      by (simp add: walk_months_next walk_loop_next walk_loop_stop)
  next
    case False
    then show ?thesis using continued.hyps continued.IH
      by (auto simp add: walk_months_next walk_loop_next)
  qed
qed

lemma walk_loop_empty: "walk_months D Pm R m w = [] \<Longrightarrow> walk_loop D Pm R m w = w \<and> \<not> running m w"
  by (cases "running m w"; cases "snd (apply_month D Pm R m w)")
     (simp_all add: walk_months_stop walk_months_break walk_months_next walk_loop_stop)

section \<open>One month\<close>

text \<open>What a month leaves in each variable, and what it writes in each field of its row.\<close>

lemma apply_month_bal:
  "bal (fst (apply_month D Pm R m w)) =
     month_balance w (num_sub (get_or0 D (m - 1)) (get_or0 Pm (m - 1)))"
  by (simp add: apply_month_def Let_def)

lemma apply_month_monthlyRate:
  "monthlyRate (fst (apply_month D Pm R m w)) =
     (case R (m - 1) of
        Some newAnnual \<Rightarrow> num_div (num_div newAnnual (Fin 12)) (Fin 100)
      | None \<Rightarrow> monthlyRate w)"
  by (simp add: apply_month_def Let_def)

lemma apply_month_totalDisbursements:
  "totalDisbursements (fst (apply_month D Pm R m w)) =
     (if num_gt (num_sub (get_or0 D (m - 1)) (get_or0 Pm (m - 1))) (Fin 0)
      then num_add (totalDisbursements w) (get_or0 D (m - 1))
      else totalDisbursements w)"
  by (simp add: apply_month_def Let_def)

lemma apply_month_isFinite_currentEMI:
  "isFinite (currentEMI w) \<Longrightarrow> isFinite (currentEMI (fst (apply_month D Pm R m w)))"
  by (simp add: apply_month_def Let_def)

lemma apply_month_breaks:
  "snd (apply_month D Pm R m w) =
     (num_lt (Math_abs (month_principal w)) (Fin (1 / 10 ^ 12)) \<and>
      num_eq (get_or0 Pm (m - 1)) (Fin 0) \<and> num_eq (get_or0 D (m - 1)) (Fin 0) \<and>
      num_gt (bal (fst (apply_month D Pm R m w))) (Fin 0.0001))"
  by (simp add: apply_month_def Let_def)

lemma emitted_row_fields:
  "monthIndex (emitted_row D Pm R m w) = m"
  "emi (emitted_row D Pm R m w) = currentEMI (fst (apply_month D Pm R m w))"
  "interest (emitted_row D Pm R m w) = month_interest w"
  "principal (emitted_row D Pm R m w) = month_principal w"
  "disbursement (emitted_row D Pm R m w) = get_or0 D (m - 1)"
  "prepayment (emitted_row D Pm R m w) = get_or0 Pm (m - 1)"
  "roiChange (emitted_row D Pm R m w) = R (m - 1)"
  "balance (emitted_row D Pm R m w) = Math_max (bal (fst (apply_month D Pm R m w))) (Fin 0)"
  by (simp_all add: emitted_row_def apply_month_def Let_def)

text \<open>The instalment and the target after a month are those of the policy stated by cases.\<close>

lemma apply_month_currentEMI:
  "currentEMI (fst (apply_month D Pm R m w)) =
     policy_emi m (num_sub (get_or0 D (m - 1)) (get_or0 Pm (m - 1)))
       (bal (fst (apply_month D Pm R m w))) (monthlyRate w) (currentEMI w)
       (targetRemainingMonths w)"
  by (simp add: apply_month_def Let_def policy_emi_def emi_recomputed_def)



section \<open>A month on finite numbers\<close>

lemma finite_nonneg_iff: "finite_nonneg x \<longleftrightarrow> (\<exists>a. x = Fin a \<and> 0 \<le> a)"
  by (cases x) simp_all

lemma isFinite_iff: "isFinite x \<longleftrightarrow> (\<exists>a. x = Fin a)"
  by (cases x) simp_all

lemma get_or0_non_negative:
  assumes "non_negative M"
  shows "finite_nonneg (get_or0 M k)"
proof (cases "M k")
  case None
  then show ?thesis by (simp add: get_or0_def)
next
  case (Some v)
  then have "finite_nonneg v" using assms by (simp add: non_negative_def)
  then show ?thesis using Some by (auto simp add: get_or0_def or0_def falsy_def finite_nonneg_iff)
qed

lemma month_interest_real:
  "bal w = Fin b \<Longrightarrow> monthlyRate w = Fin r \<Longrightarrow> month_interest w = Fin (b * r)"
  by (simp add: month_interest_def)

lemma month_principal_real:
  "bal w = Fin b \<Longrightarrow> monthlyRate w = Fin r \<Longrightarrow> currentEMI w = Fin e \<Longrightarrow>
   month_principal w = Fin (clamp_principal e (b * r) b)"
  by (auto simp add: month_principal_def month_interest_def clamp_principal_def Let_def
        num_sub_def num_gt_def)

lemma month_balance_real:
  "bal w = Fin b \<Longrightarrow> monthlyRate w = Fin r \<Longrightarrow> currentEMI w = Fin e \<Longrightarrow>
   month_balance w (Fin net) = Fin (apply_net (b - clamp_principal e (b * r) b) net)"
  by (auto simp add: month_balance_def month_principal_real apply_net_def Let_def
        num_sub_def num_gt_def Math_max_def)

lemma clamp_principal_bounds: "0 \<le> b \<Longrightarrow> 0 \<le> clamp_principal e i b \<and> clamp_principal e i b \<le> b"
  by (simp add: clamp_principal_def)

lemma apply_net_nonneg: "0 \<le> b \<Longrightarrow> 0 \<le> apply_net b net"
  by (simp add: apply_net_def)

lemma apply_month_bal_real:
  assumes "bal w = Fin b" "monthlyRate w = Fin r" "currentEMI w = Fin e"
    and "get_or0 D (m - 1) = Fin d" "get_or0 Pm (m - 1) = Fin p"
  shows "bal (fst (apply_month D Pm R m w)) =
           Fin (apply_net (b - clamp_principal e (b * r) b) (d - p))"
  using assms month_balance_real[OF assms(1-3), of "d - p"]
  by (simp add: apply_month_bal num_sub_def)

lemma sound_apply_month:
  assumes "non_negative D" "non_negative Pm" "non_negative R" "sound w"
  shows "sound (fst (apply_month D Pm R m w))"
proof -
  obtain b r e where w: "bal w = Fin b" "0 \<le> b" "monthlyRate w = Fin r" "0 \<le> r"
      "currentEMI w = Fin e"
    using assms(4) by (auto simp add: sound_def finite_nonneg_iff isFinite_iff)
  obtain d p where dp: "get_or0 D (m - 1) = Fin d" "get_or0 Pm (m - 1) = Fin p"
    using get_or0_non_negative[OF assms(1), of "m - 1"]
      get_or0_non_negative[OF assms(2), of "m - 1"]
    by (auto simp add: finite_nonneg_iff)
  have "0 \<le> b - clamp_principal e (b * r) b"
    using clamp_principal_bounds[OF w(2), of e "b * r"] by simp
  then have 1: "finite_nonneg (bal (fst (apply_month D Pm R m w)))"
    using apply_month_bal_real[OF w(1,3,5) dp] apply_net_nonneg by simp
  have 2: "finite_nonneg (monthlyRate (fst (apply_month D Pm R m w)))"
  proof (cases "R (m - 1)")
    case None
    then show ?thesis using w by (simp add: apply_month_monthlyRate)
  next
    case (Some a)
    then have "finite_nonneg a" using assms(3) by (simp add: non_negative_def)
    then obtain x where "a = Fin x" "0 \<le> x" by (auto simp add: finite_nonneg_iff)
    then show ?thesis using Some by (simp add: apply_month_monthlyRate)
  qed
  have 3: "isFinite (currentEMI (fst (apply_month D Pm R m w)))"
    using w(5) by (simp add: apply_month_isFinite_currentEMI)
  show ?thesis using 1 2 3 by (simp add: sound_def)
qed

lemma calculateEMI_isFinite:
  assumes "0 \<le> r"
  shows "isFinite (calculateEMI (Fin p) (Fin r) n)"
proof (cases "n \<le> 0 \<or> p \<le> 0 \<or> r = 0")
  case True
  then show ?thesis by (auto simp add: calculateEMI_finite_inputs)
next
  case False
  then have "calculateEMI (Fin p) (Fin r) n =
      Fin (p * r * (1 + r) ^ nat n / ((1 + r) ^ nat n - 1))"
    using assms calculateEMI_annuity[of n p r] by simp
  then show ?thesis by simp
qed

lemma or0_Fin: "or0 (Fin x) = Fin x"
  by (simp add: or0_def falsy_def)

lemma sound_initial_walk:
  assumes "0 \<le> P" "0 \<le> a"
  shows "sound (initial_walk (Fin P) (Fin a) n)"
  using assms calculateEMI_isFinite[of "a / 12 / 100" P "max 1 n"]
  by (simp add: sound_def initial_walk_def or0_Fin Let_def)

section \<open>A whole run\<close>

lemma run_schedule:
  "currentSchedule (applyUserChanges la rs n D Pm R) =
     map (\<lambda>(m, s). emitted_row D Pm R m s) (run_months la rs n D Pm R)"
  using walk_loop_schedule[of D Pm R 1 "initial_walk la rs n"]
  by (simp add: applyUserChanges_def run_months_def Let_def initial_walk_def)

lemma run_length:
  "length (currentSchedule (applyUserChanges la rs n D Pm R)) =
     length (run_months la rs n D Pm R)"
  by (simp add: run_schedule)

lemma run_months_counter:
  "i < length (run_months la rs n D Pm R) \<Longrightarrow>
   fst (run_months la rs n D Pm R ! i) = 1 + int i"
  unfolding run_months_def by (rule walk_months_counter)

lemma run_row:
  assumes "i < length (run_months la rs n D Pm R)"
  shows "currentSchedule (applyUserChanges la rs n D Pm R) ! i =
           emitted_row D Pm R (1 + int i) (snd (run_months la rs n D Pm R ! i))"
proof -
  have "currentSchedule (applyUserChanges la rs n D Pm R) ! i =
          (\<lambda>(m, s). emitted_row D Pm R m s) (run_months la rs n D Pm R ! i)"
    using assms by (simp add: run_schedule)
  then show ?thesis using run_months_counter[OF assms] by (simp add: case_prod_unfold)
qed

lemma run_months_sound:
  assumes "0 \<le> P" "0 \<le> a" "non_negative D" "non_negative Pm" "non_negative R"
    and "(m, w) \<in> set (run_months (Fin P) (Fin a) n D Pm R)"
  shows "sound w"
  using walk_months_invariant[where I = sound and D = D and Pm = Pm and R = R,
      OF sound_apply_month[OF assms(3-5)] sound_initial_walk[OF assms(1,2)]] assms(6)
  unfolding run_months_def by blast

lemma run_months_nth_sound:
  assumes "0 \<le> P" "0 \<le> a" "non_negative D" "non_negative Pm" "non_negative R"
    and "i < length (run_months (Fin P) (Fin a) n D Pm R)"
  shows "sound (snd (run_months (Fin P) (Fin a) n D Pm R ! i))"
proof -
  have "(fst (run_months (Fin P) (Fin a) n D Pm R ! i),
         snd (run_months (Fin P) (Fin a) n D Pm R ! i))
        \<in> set (run_months (Fin P) (Fin a) n D Pm R)"
    using assms(6) by simp
  then show ?thesis by (rule run_months_sound[OF assms(1-5)])
qed

lemma Math_max_floor: "finite_nonneg x \<Longrightarrow> Math_max x (Fin 0) = x"
  by (cases x) (simp_all add: Math_max_def)

text \<open>The balance a month opens with is the loan amount, or the balance of the row before.\<close>

lemma run_opening_balance:
  assumes "0 \<le> P" "0 \<le> a" "non_negative D" "non_negative Pm" "non_negative R"
    and "i < length (run_months (Fin P) (Fin a) n D Pm R)"
  shows "bal (snd (run_months (Fin P) (Fin a) n D Pm R ! i)) =
           (if i = 0 then Fin P
            else balance (currentSchedule (applyUserChanges (Fin P) (Fin a) n D Pm R) ! (i - 1)))"
proof (cases i)
  case 0
  have "run_months (Fin P) (Fin a) n D Pm R ! 0 = (1, initial_walk (Fin P) (Fin a) n)"
    using assms(6) 0 unfolding run_months_def by (simp add: walk_months_first)
  then show ?thesis using 0 by (simp add: initial_walk_def or0_Fin Let_def)
next
  case (Suc j)
  let ?ms = "run_months (Fin P) (Fin a) n D Pm R"
  have j: "j < length ?ms" using assms(6) Suc by simp
  have step: "snd (?ms ! Suc j) = fst (apply_month D Pm R (1 + int j) (snd (?ms ! j)))"
    using walk_months_chain[of j D Pm R 1 "initial_walk (Fin P) (Fin a) n"] assms(6) Suc
      run_months_counter[OF j]
    by (simp add: run_months_def)
  have "sound (snd (?ms ! Suc j))"
    using run_months_nth_sound[OF assms(1-5)] assms(6) Suc by simp
  then have "finite_nonneg (bal (fst (apply_month D Pm R (1 + int j) (snd (?ms ! j)))))"
    using step by (simp add: sound_def)
  then have "balance (emitted_row D Pm R (1 + int j) (snd (?ms ! j))) =
      bal (fst (apply_month D Pm R (1 + int j) (snd (?ms ! j))))"
    by (simp add: emitted_row_fields Math_max_floor)
  then show ?thesis using Suc step run_row[OF j] by simp
qed

text \<open>The facts of one month of a run on inputs within the contract.\<close>

lemma run_month_facts:
  assumes "0 \<le> P" "0 \<le> a" "non_negative D" "non_negative Pm" "non_negative R"
    and "i < length (currentSchedule (applyUserChanges (Fin P) (Fin a) n D Pm R))"
  shows "\<exists>w b r e d p.
      run_months (Fin P) (Fin a) n D Pm R ! i = (1 + int i, w) \<and>
      bal w = Fin b \<and> 0 \<le> b \<and> monthlyRate w = Fin r \<and> 0 \<le> r \<and> currentEMI w = Fin e \<and>
      get_or0 D (int i) = Fin d \<and> 0 \<le> d \<and> get_or0 Pm (int i) = Fin p \<and> 0 \<le> p \<and>
      currentSchedule (applyUserChanges (Fin P) (Fin a) n D Pm R) ! i =
        emitted_row D Pm R (1 + int i) w \<and>
      bal (fst (apply_month D Pm R (1 + int i) w)) =
        Fin (apply_net (b - clamp_principal e (b * r) b) (d - p)) \<and>
      interest (emitted_row D Pm R (1 + int i) w) = Fin (b * r) \<and>
      principal (emitted_row D Pm R (1 + int i) w) = Fin (clamp_principal e (b * r) b) \<and>
      balance (emitted_row D Pm R (1 + int i) w) =
        Fin (apply_net (b - clamp_principal e (b * r) b) (d - p))"
proof -
  let ?ms = "run_months (Fin P) (Fin a) n D Pm R"
  let ?w = "snd (?ms ! i)"
  have i: "i < length ?ms" using assms(6) by (simp add: run_length)
  have nth: "?ms ! i = (1 + int i, ?w)"
    using run_months_counter[OF i] by (simp add: prod_eq_iff)
  have "sound ?w" by (rule run_months_nth_sound[OF assms(1-5) i])
  then obtain b r e where w: "bal ?w = Fin b" "0 \<le> b" "monthlyRate ?w = Fin r" "0 \<le> r"
      "currentEMI ?w = Fin e"
    by (auto simp add: sound_def finite_nonneg_iff isFinite_iff)
  obtain d p where dp: "get_or0 D (int i) = Fin d" "0 \<le> d" "get_or0 Pm (int i) = Fin p" "0 \<le> p"
    using get_or0_non_negative[OF assms(3), of "int i"]
      get_or0_non_negative[OF assms(4), of "int i"]
    by (auto simp add: finite_nonneg_iff)
  have after: "bal (fst (apply_month D Pm R (1 + int i) ?w)) =
      Fin (apply_net (b - clamp_principal e (b * r) b) (d - p))"
    using apply_month_bal_real[OF w(1,3,5), of D "1 + int i" d Pm p R] dp by simp
  have "0 \<le> b - clamp_principal e (b * r) b"
    using clamp_principal_bounds[OF w(2), of e "b * r"] by simp
  then have "0 \<le> apply_net (b - clamp_principal e (b * r) b) (d - p)"
    by (rule apply_net_nonneg)
  then have rowbal: "balance (emitted_row D Pm R (1 + int i) ?w) =
      Fin (apply_net (b - clamp_principal e (b * r) b) (d - p))"
    using after by (simp add: emitted_row_fields Math_max_def)
  have "?ms ! i = (1 + int i, ?w) \<and>
      bal ?w = Fin b \<and> 0 \<le> b \<and> monthlyRate ?w = Fin r \<and> 0 \<le> r \<and> currentEMI ?w = Fin e \<and>
      get_or0 D (int i) = Fin d \<and> 0 \<le> d \<and> get_or0 Pm (int i) = Fin p \<and> 0 \<le> p \<and>
      currentSchedule (applyUserChanges (Fin P) (Fin a) n D Pm R) ! i =
        emitted_row D Pm R (1 + int i) ?w \<and>
      bal (fst (apply_month D Pm R (1 + int i) ?w)) =
        Fin (apply_net (b - clamp_principal e (b * r) b) (d - p)) \<and>
      interest (emitted_row D Pm R (1 + int i) ?w) = Fin (b * r) \<and>
      principal (emitted_row D Pm R (1 + int i) ?w) = Fin (clamp_principal e (b * r) b) \<and>
      balance (emitted_row D Pm R (1 + int i) ?w) =
        Fin (apply_net (b - clamp_principal e (b * r) b) (d - p))"
    using nth w dp run_row[OF i] after rowbal
      month_interest_real[OF w(1,3)] month_principal_real[OF w(1,3,5)]
    by (simp add: emitted_row_fields)
  then show ?thesis by blast
qed

section \<open>The rate and the instalment in effect\<close>

lemma run_months_step:
  assumes "Suc i < length (run_months la rs n D Pm R)"
  shows "snd (run_months la rs n D Pm R ! Suc i) =
           fst (apply_month D Pm R (1 + int i) (snd (run_months la rs n D Pm R ! i)))"
proof -
  have i: "i < length (run_months la rs n D Pm R)" using assms by simp
  show ?thesis
    using walk_months_chain[of i D Pm R 1 "initial_walk la rs n"] assms run_months_counter[OF i]
    by (simp add: run_months_def)
qed

lemma run_months_start:
  assumes "0 < length (run_months la rs n D Pm R)"
  shows "snd (run_months la rs n D Pm R ! 0) = initial_walk la rs n"
  using assms unfolding run_months_def by (simp add: walk_months_first)

lemma run_rate_in_effect:
  "i < length (run_months la rs n D Pm R) \<Longrightarrow>
   monthlyRate (snd (run_months la rs n D Pm R ! i)) = rate_in_effect rs R i"
proof (induction i)
  case 0
  then show ?case by (simp add: run_months_start initial_walk_def Let_def)
next
  case (Suc i)
  then have "monthlyRate (snd (run_months la rs n D Pm R ! i)) = rate_in_effect rs R i"
    by simp
  then show ?case
    using run_months_step[OF Suc.prems]
    by (simp add: apply_month_monthlyRate split: option.split)
qed

lemma run_emi_in_effect:
  assumes "i < length (run_months la rs n D Pm R)"
  shows "currentEMI (snd (run_months la rs n D Pm R ! i)) =
           (if i = 0
            then calculateEMI (or0 la) (num_div (num_div rs (Fin 12)) (Fin 100)) (max 1 n)
            else emi (currentSchedule (applyUserChanges la rs n D Pm R) ! (i - 1)))"
proof (cases i)
  case 0
  then show ?thesis using assms by (simp add: run_months_start initial_walk_def Let_def)
next
  case (Suc j)
  then have j: "j < length (run_months la rs n D Pm R)" using assms by simp
  show ?thesis
    using Suc run_months_step[of j la rs n D Pm R] assms run_row[OF j]
    by (simp add: emitted_row_fields)
qed

section \<open>Runs on concrete inputs\<close>

lemmas run_eval = applyUserChanges_def run_months_def walk_loop.simps walk_months.simps
  apply_month_def month_interest_def month_principal_def month_balance_def
  get_or0_def or0_def falsy_def num_sub_def num_gt_def num_eq_def Math_max_def retarget_def
  calculateEMI_def calculateRemainingMonths_def Let_def SAFE_MONTH_CAP_def initial_walk_def
  emitted_row_def

lemma non_negative_empty: "non_negative Map.empty"
  by (simp add: non_negative_def)

lemma non_negative_single: "0 \<le> x \<Longrightarrow> non_negative [k \<mapsto> Fin x]"
  by (simp add: non_negative_def)

section \<open>The claims\<close>

text \<open>
  \<^bold>\<open>C1.\<close> On a non-negative loan amount, rate and inputs, take the row at any
  position \<open>i\<close> of the schedule that \<open>applyUserChanges\<close> returns, with the variables
  \<open>w\<close> at the top of that month. The opening balance \<open>b\<close> is the loan amount, or the
  balance of the row before. The monthly rate \<open>r\<close> is the rate in effect: the starting
  rate, or the latest new rate entered for an earlier month, over 12 and over 100.
  The instalment \<open>e\<close> is that of \<open>calculateEMI\<close> on the loan amount, the starting rate
  and the tenure (at least 1), or the instalment of the row before. The row's interest
  is \<open>b \<times> r\<close>; its principal is \<open>e \<midarrow> b \<times> r\<close> clamped to the interval from 0 to \<open>b\<close>, so 0
  when the instalment does not cover the interest; its balance is \<open>b\<close> less that
  principal, then with the month's disbursement less its prepayment applied, floored at
  0 when that net amount is negative.
\<close>

theorem month_arithmetic:
  assumes "0 \<le> P" "0 \<le> a" "non_negative D" "non_negative Pm" "non_negative R"
    and "i < length (currentSchedule (applyUserChanges (Fin P) (Fin a) n D Pm R))"
  shows "\<exists>w b r e d p.
      run_months (Fin P) (Fin a) n D Pm R ! i = (1 + int i, w) \<and>
      bal w = Fin b \<and> monthlyRate w = Fin r \<and> currentEMI w = Fin e \<and>
      Fin b = (if i = 0 then Fin P
               else balance (currentSchedule (applyUserChanges (Fin P) (Fin a) n D Pm R) ! (i - 1))) \<and>
      Fin r = rate_in_effect (Fin a) R i \<and>
      Fin e = (if i = 0
               then calculateEMI (Fin P) (num_div (num_div (Fin a) (Fin 12)) (Fin 100)) (max 1 n)
               else emi (currentSchedule (applyUserChanges (Fin P) (Fin a) n D Pm R) ! (i - 1))) \<and>
      get_or0 D (int i) = Fin d \<and> get_or0 Pm (int i) = Fin p \<and>
      disbursement (currentSchedule (applyUserChanges (Fin P) (Fin a) n D Pm R) ! i) = Fin d \<and>
      prepayment (currentSchedule (applyUserChanges (Fin P) (Fin a) n D Pm R) ! i) = Fin p \<and>
      interest (currentSchedule (applyUserChanges (Fin P) (Fin a) n D Pm R) ! i) = Fin (b * r) \<and>
      principal (currentSchedule (applyUserChanges (Fin P) (Fin a) n D Pm R) ! i) =
        Fin (clamp_principal e (b * r) b) \<and>
      0 \<le> clamp_principal e (b * r) b \<and> clamp_principal e (b * r) b \<le> b \<and>
      (e - b * r < 0 \<longrightarrow> clamp_principal e (b * r) b = 0) \<and>
      balance (currentSchedule (applyUserChanges (Fin P) (Fin a) n D Pm R) ! i) =
        Fin (apply_net (b - clamp_principal e (b * r) b) (d - p))"
proof -
  let ?S = "currentSchedule (applyUserChanges (Fin P) (Fin a) n D Pm R)"
  let ?ms = "run_months (Fin P) (Fin a) n D Pm R"
  obtain w b r e d p where f:
    "?ms ! i = (1 + int i, w)"
    "bal w = Fin b" "0 \<le> b" "monthlyRate w = Fin r" "currentEMI w = Fin e"
    "get_or0 D (int i) = Fin d" "get_or0 Pm (int i) = Fin p"
    "?S ! i = emitted_row D Pm R (1 + int i) w"
    "interest (emitted_row D Pm R (1 + int i) w) = Fin (b * r)"
    "principal (emitted_row D Pm R (1 + int i) w) = Fin (clamp_principal e (b * r) b)"
    "balance (emitted_row D Pm R (1 + int i) w) =
       Fin (apply_net (b - clamp_principal e (b * r) b) (d - p))"
    using run_month_facts[OF assms] by blast
  have i: "i < length ?ms"
    using assms(6) by (simp add: run_length)
  have start: "Fin b = (if i = 0 then Fin P else balance (?S ! (i - 1)))"
    using run_opening_balance[OF assms(1-5) i] f(1,2) by simp
  have rate: "Fin r = rate_in_effect (Fin a) R i"
    using run_rate_in_effect[OF i] f(1,4) by simp
  have inst: "Fin e = (if i = 0
      then calculateEMI (Fin P) (num_div (num_div (Fin a) (Fin 12)) (Fin 100)) (max 1 n)
      else emi (?S ! (i - 1)))"
    using run_emi_in_effect[OF i] f(1,5) by (simp add: or0_Fin)
  have clamp: "0 \<le> clamp_principal e (b * r) b" "clamp_principal e (b * r) b \<le> b"
    using clamp_principal_bounds[OF f(3), of e "b * r"] by simp_all
  have zero: "e - b * r < 0 \<longrightarrow> clamp_principal e (b * r) b = 0"
    using f(3) by (simp add: clamp_principal_def)
  have "?ms ! i = (1 + int i, w) \<and>
      bal w = Fin b \<and> monthlyRate w = Fin r \<and> currentEMI w = Fin e \<and>
      Fin b = (if i = 0 then Fin P else balance (?S ! (i - 1))) \<and>
      Fin r = rate_in_effect (Fin a) R i \<and>
      Fin e = (if i = 0
               then calculateEMI (Fin P) (num_div (num_div (Fin a) (Fin 12)) (Fin 100)) (max 1 n)
               else emi (?S ! (i - 1))) \<and>
      get_or0 D (int i) = Fin d \<and> get_or0 Pm (int i) = Fin p \<and>
      disbursement (?S ! i) = Fin d \<and> prepayment (?S ! i) = Fin p \<and>
      interest (?S ! i) = Fin (b * r) \<and>
      principal (?S ! i) = Fin (clamp_principal e (b * r) b) \<and>
      0 \<le> clamp_principal e (b * r) b \<and> clamp_principal e (b * r) b \<le> b \<and>
      (e - b * r < 0 \<longrightarrow> clamp_principal e (b * r) b = 0) \<and>
      balance (?S ! i) = Fin (apply_net (b - clamp_principal e (b * r) b) (d - p))"
    using f start rate inst clamp zero by (simp add: emitted_row_fields)
  then show ?thesis by blast
qed

theorem month_arithmetic_witness:
  "rate_in_effect (Fin 1200) [0 \<mapsto> Fin 2400] 1 = Fin 2 \<and>
   interest (currentSchedule (applyUserChanges (Fin 1000) (Fin 1200) 1
               [0 \<mapsto> Fin 500] Map.empty [0 \<mapsto> Fin 2400]) ! 0) = Fin 1000 \<and>
   emi (currentSchedule (applyUserChanges (Fin 1000) (Fin 1200) 1
               [0 \<mapsto> Fin 500] Map.empty [0 \<mapsto> Fin 2400]) ! 0) = Fin 2000 \<and>
   balance (currentSchedule (applyUserChanges (Fin 1000) (Fin 1200) 1
               [0 \<mapsto> Fin 500] Map.empty [0 \<mapsto> Fin 2400]) ! 0) = Fin 500 \<and>
   interest (currentSchedule (applyUserChanges (Fin 1000) (Fin 1200) 1
               [0 \<mapsto> Fin 500] Map.empty [0 \<mapsto> Fin 2400]) ! 1) = Fin 1000 \<and>
   principal (currentSchedule (applyUserChanges (Fin 1000) (Fin 1200) 1
               [0 \<mapsto> Fin 500] Map.empty [0 \<mapsto> Fin 2400]) ! 1) = Fin 500 \<and>
   balance (currentSchedule (applyUserChanges (Fin 1000) (Fin 1200) 1
               [0 \<mapsto> Fin 500] Map.empty [0 \<mapsto> Fin 2400]) ! 1) = Fin 0"
proof -
  let ?D = "[0 \<mapsto> Fin 500] :: inputs"
  let ?R = "[0 \<mapsto> Fin 2400] :: inputs"
  let ?S = "currentSchedule (applyUserChanges (Fin 1000) (Fin 1200) 1 ?D Map.empty ?R)"
  have len: "1 < length ?S" by (simp add: run_eval)
  have row0: "interest (?S ! 0) = Fin 1000" "emi (?S ! 0) = Fin 2000"
    "balance (?S ! 0) = Fin 500"
    by (simp_all add: run_eval)
  have rate: "rate_in_effect (Fin 1200) ?R 1 = Fin 2"
    by simp
  obtain b r e d p where f:
    "Fin b = (if (1::nat) = 0 then Fin 1000 else balance (?S ! (1 - 1)))"
    "Fin r = rate_in_effect (Fin 1200) ?R 1"
    "Fin e = (if (1::nat) = 0
              then calculateEMI (Fin 1000) (num_div (num_div (Fin 1200) (Fin 12)) (Fin 100)) (max 1 1)
              else emi (?S ! (1 - 1)))"
    "get_or0 ?D (int 1) = Fin d" "get_or0 Map.empty (int 1) = Fin p"
    "interest (?S ! 1) = Fin (b * r)"
    "principal (?S ! 1) = Fin (clamp_principal e (b * r) b)"
    "balance (?S ! 1) = Fin (apply_net (b - clamp_principal e (b * r) b) (d - p))"
    using month_arithmetic[of 1000 1200 ?D Map.empty ?R 1 1, OF _ _ non_negative_single
        non_negative_empty non_negative_single len]
    by auto
  have "b = 500" "r = 2" "e = 2000" "d = 0" "p = 0"
    using f(1-5) row0 rate by (simp_all add: get_or0_def)
  then show ?thesis using f(6-8) row0 rate by (simp add: clamp_principal_def apply_net_def)
qed




text \<open>The next month accrues interest on the row's balance at the rate the month left.\<close>

lemma run_next_month:
  assumes "0 \<le> P" "0 \<le> a" "non_negative D" "non_negative Pm" "non_negative R"
    and "Suc i < length (run_months (Fin P) (Fin a) n D Pm R)"
  shows "run_months (Fin P) (Fin a) n D Pm R ! Suc i =
           (2 + int i, fst (apply_month D Pm R (1 + int i)
                              (snd (run_months (Fin P) (Fin a) n D Pm R ! i))))"
    and "interest (currentSchedule (applyUserChanges (Fin P) (Fin a) n D Pm R) ! Suc i) =
           num_mul (balance (currentSchedule (applyUserChanges (Fin P) (Fin a) n D Pm R) ! i))
             (monthlyRate (fst (apply_month D Pm R (1 + int i)
                              (snd (run_months (Fin P) (Fin a) n D Pm R ! i)))))"
proof -
  let ?ms = "run_months (Fin P) (Fin a) n D Pm R"
  let ?S = "currentSchedule (applyUserChanges (Fin P) (Fin a) n D Pm R)"
  have i: "i < length ?ms" using assms(6) by simp
  have step: "snd (?ms ! Suc i) = fst (apply_month D Pm R (1 + int i) (snd (?ms ! i)))"
    using walk_months_chain[of i D Pm R 1 "initial_walk (Fin P) (Fin a) n"] assms(6)
      run_months_counter[OF i]
    by (simp add: run_months_def)
  show "?ms ! Suc i = (2 + int i, fst (apply_month D Pm R (1 + int i) (snd (?ms ! i))))"
    using run_months_counter[OF assms(6)] step by (simp add: prod_eq_iff)
  have "bal (snd (?ms ! Suc i)) = balance (?S ! i)"
    using run_opening_balance[OF assms(1-5) assms(6)] by simp
  then show "interest (?S ! Suc i) =
      num_mul (balance (?S ! i))
        (monthlyRate (fst (apply_month D Pm R (1 + int i) (snd (?ms ! i)))))"
    using run_row[OF assms(6)] step by (simp add: emitted_row_fields month_interest_def)
qed

text \<open>
  \<^bold>\<open>C5\<close>, as stated, fails: the keys of the three maps count the rows from 0. A
  disbursement of 500 entered under key 1 is not in the row whose \<open>monthIndex\<close> is 1,
  and the balance of that row does not have it; it is in the row whose \<open>monthIndex\<close>
  is 2.
\<close>

theorem override_key_counterexample:
  "monthIndex (currentSchedule (applyUserChanges (Fin 1000) (Fin 0) 2
                 [1 \<mapsto> Fin 500] Map.empty Map.empty) ! 0) = 1 \<and>
   disbursement (currentSchedule (applyUserChanges (Fin 1000) (Fin 0) 2
                 [1 \<mapsto> Fin 500] Map.empty Map.empty) ! 0) = Fin 0 \<and>
   balance (currentSchedule (applyUserChanges (Fin 1000) (Fin 0) 2
                 [1 \<mapsto> Fin 500] Map.empty Map.empty) ! 0) = Fin 500 \<and>
   monthIndex (currentSchedule (applyUserChanges (Fin 1000) (Fin 0) 2
                 [1 \<mapsto> Fin 500] Map.empty Map.empty) ! 1) = 2 \<and>
   disbursement (currentSchedule (applyUserChanges (Fin 1000) (Fin 0) 2
                 [1 \<mapsto> Fin 500] Map.empty Map.empty) ! 1) = Fin 500"
  by (simp add: run_eval)

text \<open>
  \<^bold>\<open>C5\<close>, amended. The inputs are keyed by the row's position counted from 0: on
  inputs within the contract, the row at position \<open>i\<close> of the schedule has
  \<open>monthIndex\<close> \<open>i + 1\<close> and takes its disbursement, prepayment and new rate from key
  \<open>i\<close>. Its balance is the opening balance less the row's principal with the
  disbursement less the prepayment applied. Its interest is accrued at the rate in
  effect before the month; a new rate under key \<open>i\<close> is the monthly rate after the
  month, at which the next row accrues interest on this row's balance.
\<close>

theorem overrides_keyed_from_zero:
  assumes "0 \<le> P" "0 \<le> a" "non_negative D" "non_negative Pm" "non_negative R"
    and "i < length (currentSchedule (applyUserChanges (Fin P) (Fin a) n D Pm R))"
  shows "monthIndex (currentSchedule (applyUserChanges (Fin P) (Fin a) n D Pm R) ! i) = int i + 1 \<and>
    disbursement (currentSchedule (applyUserChanges (Fin P) (Fin a) n D Pm R) ! i) = get_or0 D (int i) \<and>
    prepayment (currentSchedule (applyUserChanges (Fin P) (Fin a) n D Pm R) ! i) = get_or0 Pm (int i) \<and>
    roiChange (currentSchedule (applyUserChanges (Fin P) (Fin a) n D Pm R) ! i) = R (int i) \<and>
    (\<exists>w b princ d p.
       run_months (Fin P) (Fin a) n D Pm R ! i = (1 + int i, w) \<and>
       bal w = Fin b \<and>
       principal (currentSchedule (applyUserChanges (Fin P) (Fin a) n D Pm R) ! i) = Fin princ \<and>
       get_or0 D (int i) = Fin d \<and> get_or0 Pm (int i) = Fin p \<and>
       balance (currentSchedule (applyUserChanges (Fin P) (Fin a) n D Pm R) ! i) =
         Fin (apply_net (b - princ) (d - p)) \<and>
       interest (currentSchedule (applyUserChanges (Fin P) (Fin a) n D Pm R) ! i) =
         num_mul (bal w) (monthlyRate w) \<and>
       monthlyRate (fst (apply_month D Pm R (1 + int i) w)) =
         (case R (int i) of
            Some newAnnual \<Rightarrow> num_div (num_div newAnnual (Fin 12)) (Fin 100)
          | None \<Rightarrow> monthlyRate w) \<and>
       (Suc i < length (currentSchedule (applyUserChanges (Fin P) (Fin a) n D Pm R)) \<longrightarrow>
          interest (currentSchedule (applyUserChanges (Fin P) (Fin a) n D Pm R) ! Suc i) =
            num_mul (balance (currentSchedule (applyUserChanges (Fin P) (Fin a) n D Pm R) ! i))
              (monthlyRate (fst (apply_month D Pm R (1 + int i) w)))))"
proof -
  let ?S = "currentSchedule (applyUserChanges (Fin P) (Fin a) n D Pm R)"
  let ?ms = "run_months (Fin P) (Fin a) n D Pm R"
  obtain w b r e d p where f:
    "?ms ! i = (1 + int i, w)"
    "bal w = Fin b" "monthlyRate w = Fin r" "currentEMI w = Fin e"
    "get_or0 D (int i) = Fin d" "get_or0 Pm (int i) = Fin p"
    "?S ! i = emitted_row D Pm R (1 + int i) w"
    "interest (emitted_row D Pm R (1 + int i) w) = Fin (b * r)"
    "principal (emitted_row D Pm R (1 + int i) w) = Fin (clamp_principal e (b * r) b)"
    "balance (emitted_row D Pm R (1 + int i) w) =
       Fin (apply_net (b - clamp_principal e (b * r) b) (d - p))"
    using run_month_facts[OF assms] by blast
  have w: "snd (?ms ! i) = w" using f(1) by simp
  have nxt: "Suc i < length ?S \<longrightarrow>
      interest (?S ! Suc i) =
        num_mul (balance (?S ! i)) (monthlyRate (fst (apply_month D Pm R (1 + int i) w)))"
    using run_next_month(2)[OF assms(1-5), of i n] w by (simp add: run_length)
  have keys: "monthIndex (?S ! i) = int i + 1 \<and> disbursement (?S ! i) = get_or0 D (int i) \<and>
      prepayment (?S ! i) = get_or0 Pm (int i) \<and> roiChange (?S ! i) = R (int i)"
    using f(7) by (simp add: emitted_row_fields)
  have "?ms ! i = (1 + int i, w) \<and> bal w = Fin b \<and>
       principal (?S ! i) = Fin (clamp_principal e (b * r) b) \<and>
       get_or0 D (int i) = Fin d \<and> get_or0 Pm (int i) = Fin p \<and>
       balance (?S ! i) = Fin (apply_net (b - clamp_principal e (b * r) b) (d - p)) \<and>
       interest (?S ! i) = num_mul (bal w) (monthlyRate w) \<and>
       monthlyRate (fst (apply_month D Pm R (1 + int i) w)) =
         (case R (int i) of
            Some newAnnual \<Rightarrow> num_div (num_div newAnnual (Fin 12)) (Fin 100)
          | None \<Rightarrow> monthlyRate w) \<and>
       (Suc i < length ?S \<longrightarrow>
          interest (?S ! Suc i) =
            num_mul (balance (?S ! i)) (monthlyRate (fst (apply_month D Pm R (1 + int i) w))))"
    using f nxt by (simp add: apply_month_monthlyRate)
  then have "\<exists>w b princ d p.
       ?ms ! i = (1 + int i, w) \<and> bal w = Fin b \<and>
       principal (?S ! i) = Fin princ \<and>
       get_or0 D (int i) = Fin d \<and> get_or0 Pm (int i) = Fin p \<and>
       balance (?S ! i) = Fin (apply_net (b - princ) (d - p)) \<and>
       interest (?S ! i) = num_mul (bal w) (monthlyRate w) \<and>
       monthlyRate (fst (apply_month D Pm R (1 + int i) w)) =
         (case R (int i) of
            Some newAnnual \<Rightarrow> num_div (num_div newAnnual (Fin 12)) (Fin 100)
          | None \<Rightarrow> monthlyRate w) \<and>
       (Suc i < length ?S \<longrightarrow>
          interest (?S ! Suc i) =
            num_mul (balance (?S ! i)) (monthlyRate (fst (apply_month D Pm R (1 + int i) w))))"
    by blast
  with keys show ?thesis by simp
qed

theorem overrides_keyed_from_zero_witness:
  "monthIndex (currentSchedule (applyUserChanges (Fin 1000) (Fin 0) 3
                 Map.empty [1 \<mapsto> Fin 100] [1 \<mapsto> Fin 12]) ! 1) = 2 \<and>
   prepayment (currentSchedule (applyUserChanges (Fin 1000) (Fin 0) 3
                 Map.empty [1 \<mapsto> Fin 100] [1 \<mapsto> Fin 12]) ! 1) = Fin 100 \<and>
   roiChange (currentSchedule (applyUserChanges (Fin 1000) (Fin 0) 3
                 Map.empty [1 \<mapsto> Fin 100] [1 \<mapsto> Fin 12]) ! 1) = Some (Fin 12)"
proof -
  let ?Pm = "[1 \<mapsto> Fin 100] :: inputs"
  let ?R = "[1 \<mapsto> Fin 12] :: inputs"
  let ?S = "currentSchedule (applyUserChanges (Fin 1000) (Fin 0) 3 Map.empty ?Pm ?R)"
  have len: "1 < length ?S" by (simp add: run_eval)
  show ?thesis
    using overrides_keyed_from_zero[of 1000 0 Map.empty ?Pm ?R 1 3, OF _ _ non_negative_empty
        non_negative_single non_negative_single len]
    by (simp add: get_or0_def or0_Fin)
qed

text \<open>The total of the disbursements is accumulated over the months of positive net amount.\<close>

lemma walk_loop_totalDisbursements:
  "totalDisbursements (walk_loop D Pm R m w) =
     foldl num_add (totalDisbursements w)
       (map disbursement
          (filter (\<lambda>r. num_gt (num_sub (disbursement r) (prepayment r)) (Fin 0))
             (map (\<lambda>(m, s). emitted_row D Pm R m s) (walk_months D Pm R m w))))"
proof (induction m w rule: walk_induct[where D=D and Pm=Pm and R=R])
  case (halted m w)
  then show ?case by (simp add: walk_loop_stop walk_months_stop)
next
  case (stalled m w)
  then show ?case
    by (simp add: walk_loop_break walk_months_break apply_month_totalDisbursements
          emitted_row_fields)
next
  case (continued m w)
  then show ?case
    by (simp add: walk_loop_next walk_months_next apply_month_totalDisbursements
          emitted_row_fields)
qed

lemma shown_disbursements_positive_months:
  "shownDisbursements (applyUserChanges la rs n D Pm R) =
     foldl num_add (Fin 0)
       (map disbursement
          (filter (\<lambda>r. num_gt (num_sub (disbursement r) (prepayment r)) (Fin 0))
             (currentSchedule (applyUserChanges la rs n D Pm R))))"
proof -
  have "shownDisbursements (applyUserChanges la rs n D Pm R) =
      totalDisbursements (walk_loop D Pm R 1 (initial_walk la rs n))"
    by (simp add: applyUserChanges_def Let_def)
  also have "\<dots> = foldl num_add (Fin 0)
       (map disbursement
          (filter (\<lambda>r. num_gt (num_sub (disbursement r) (prepayment r)) (Fin 0))
             (map (\<lambda>(m, s). emitted_row D Pm R m s) (run_months la rs n D Pm R))))"
    unfolding run_months_def
    by (simp add: walk_loop_totalDisbursements initial_walk_def Let_def)
  finally show ?thesis by (simp add: run_schedule)
qed

lemma num_add_zero: "num_add x (Fin 0) = x"
  by (cases x) simp_all

lemma foldl_skip_zero_disbursements:
  assumes "\<forall>r \<in> set rows. disbursement r = Fin 0 \<or> keep r"
  shows "foldl num_add acc (map disbursement (filter keep rows)) =
         foldl num_add acc (map disbursement rows)"
  using assms by (induction rows arbitrary: acc) (auto simp add: num_add_zero)

lemma or0_get_or0: "or0 (get_or0 M k) = get_or0 M k"
  by (cases "M k") (auto simp add: get_or0_def or0_def falsy_def)

lemma foldl_or0_disbursements:
  assumes "\<forall>r \<in> set rows. or0 (disbursement r) = disbursement r"
  shows "foldl (\<lambda>s r. num_add s (or0 (disbursement r))) acc rows =
         foldl num_add acc (map disbursement rows)"
  using assms by (induction rows arbitrary: acc) simp_all

lemma report_total_of_run:
  "report_totalDisbursements (currentSchedule (applyUserChanges la rs n D Pm R)) =
     foldl num_add (Fin 0) (map disbursement (currentSchedule (applyUserChanges la rs n D Pm R)))"
proof -
  have "\<forall>r \<in> set (currentSchedule (applyUserChanges la rs n D Pm R)).
          or0 (disbursement r) = disbursement r"
    by (auto simp add: run_schedule emitted_row_fields or0_get_or0)
  then show ?thesis
    unfolding report_totalDisbursements_def by (rule foldl_or0_disbursements)
qed

text \<open>
  Where a month has a disbursement and a prepayment at least as large, the two totals
  of the program part: the walk does not count the disbursement, the report does.
\<close>

lemma disbursement_totals_differ:
  "shownDisbursements (applyUserChanges (Fin 1000) (Fin 0) 1
      [0 \<mapsto> Fin 100] [0 \<mapsto> Fin 200] Map.empty) = Fin 0 \<and>
   report_totalDisbursements (currentSchedule (applyUserChanges (Fin 1000) (Fin 0) 1
      [0 \<mapsto> Fin 100] [0 \<mapsto> Fin 200] Map.empty)) = Fin 100"
  by (simp add: report_totalDisbursements_def run_eval)

text \<open>
  \<^bold>\<open>C8\<close>, as stated, fails: a disbursement entered under a key past the last month
  of the walk is in the inputs and in no row, and the total of disbursements does not
  have it.
\<close>

theorem total_disbursements_counterexample:
  "shownDisbursements (applyUserChanges (Fin 1000) (Fin 0) 1
      [5 \<mapsto> Fin 100] Map.empty Map.empty) \<noteq> Fin 100"
  by (simp add: run_eval)

text \<open>
  \<^bold>\<open>C8\<close>, amended. When every row of the schedule with a disbursement has a
  disbursement larger than its prepayment, the total of disbursements that
  \<open>applyUserChanges\<close> shows is the sum, in month order, of the disbursements of the
  rows (gross), which is also the total of the summary report. The completion month is
  the number of rows of the schedule.
\<close>

theorem total_disbursements_of_rows:
  assumes "\<forall>r \<in> set (currentSchedule (applyUserChanges la rs n D Pm R)).
             disbursement r = Fin 0 \<or>
             num_gt (num_sub (disbursement r) (prepayment r)) (Fin 0)"
  shows "shownDisbursements (applyUserChanges la rs n D Pm R) =
           foldl num_add (Fin 0)
             (map disbursement (currentSchedule (applyUserChanges la rs n D Pm R))) \<and>
         shownDisbursements (applyUserChanges la rs n D Pm R) =
           report_totalDisbursements (currentSchedule (applyUserChanges la rs n D Pm R)) \<and>
         completionMonthIndex (applyUserChanges la rs n D Pm R) =
           length (currentSchedule (applyUserChanges la rs n D Pm R))"
proof -
  have total: "shownDisbursements (applyUserChanges la rs n D Pm R) =
      foldl num_add (Fin 0)
        (map disbursement (currentSchedule (applyUserChanges la rs n D Pm R)))"
    using foldl_skip_zero_disbursements[OF assms, of "Fin 0"]
    by (simp add: shown_disbursements_positive_months)
  have "completionMonthIndex (applyUserChanges la rs n D Pm R) =
      length (currentSchedule (applyUserChanges la rs n D Pm R))"
    by (simp add: applyUserChanges_def Let_def)
  with total show ?thesis by (simp add: report_total_of_run)
qed

theorem total_disbursements_of_rows_witness:
  "shownDisbursements (applyUserChanges (Fin 1000) (Fin 0) 2
      [0 \<mapsto> Fin 500] [1 \<mapsto> Fin 100] Map.empty) = Fin 500 \<and>
   completionMonthIndex (applyUserChanges (Fin 1000) (Fin 0) 2
      [0 \<mapsto> Fin 500] [1 \<mapsto> Fin 100] Map.empty) = 2"
proof -
  have rows: "\<forall>r \<in> set (currentSchedule (applyUserChanges (Fin 1000) (Fin 0) 2
      [0 \<mapsto> Fin 500] [1 \<mapsto> Fin 100] Map.empty)).
        disbursement r = Fin 0 \<or> num_gt (num_sub (disbursement r) (prepayment r)) (Fin 0)"
    by (simp add: run_eval)
  show ?thesis
    using total_disbursements_of_rows[OF rows] by (simp add: run_eval)
qed

section \<open>Where a walk stops\<close>

lemma walk_months_not_last:
  "Suc i < length (walk_months D Pm R m w) \<Longrightarrow>
   \<not> snd (apply_month D Pm R (fst (walk_months D Pm R m w ! i))
            (snd (walk_months D Pm R m w ! i)))"
proof (induction m w arbitrary: i rule: walk_induct[where D=D and Pm=Pm and R=R])
  case (halted m w)
  then show ?case by (simp add: walk_months_stop)
next
  case (stalled m w)
  then show ?case by (simp add: walk_months_break)
next
  case (continued m w)
  show ?case
  proof (cases i)
    case 0
    then show ?thesis using continued.hyps by (simp add: walk_months_next)
  next
    case (Suc j)
    then show ?thesis using continued.hyps continued.prems continued.IH[of j]
      by (simp add: walk_months_next)
  qed
qed

lemma walk_months_empty_iff: "walk_months D Pm R m w = [] \<longleftrightarrow> \<not> running m w"
  by (cases "running m w"; cases "snd (apply_month D Pm R m w)")
     (simp_all add: walk_months_stop walk_months_break walk_months_next)

lemma stall_guard_emitted_row:
  assumes "finite_nonneg (bal (fst (apply_month D Pm R m w)))"
  shows "stall_guard (emitted_row D Pm R m w) = snd (apply_month D Pm R m w)"
  using assms
  by (simp add: stall_guard_def emitted_row_fields Math_max_floor apply_month_breaks[of D Pm R m w])

text \<open>
  A loan of 10000 at rate 0 over 10000 months pays 1 a month: the loop is still
  running when the month counter passes the cap.
\<close>

lemma capped_walk_months:
  assumes "bal w = Fin (10001 - real_of_int m)" "monthlyRate w = Fin 0" "currentEMI w = Fin 1"
    and "1 \<le> m" "m \<le> 5001"
  shows "length (walk_months Map.empty Map.empty Map.empty m w) = nat (5001 - m)"
  using assms
proof (induction "nat (5001 - m)" arbitrary: m w rule: less_induct)
  case (less m w)
  show ?case
  proof (cases "m = 5001")
    case True
    then have "\<not> running m w" by (simp add: running_def SAFE_MONTH_CAP_def)
    then show ?thesis using True by (simp add: walk_months_stop)
  next
    case False
    then have m: "m \<le> 5000" using less.prems(5) by simp
    let ?w' = "fst (apply_month Map.empty Map.empty Map.empty m w)"
    have run: "running m w"
      using m less.prems(1) by (simp add: running_def SAFE_MONTH_CAP_def num_gt_def)
    have zero: "get_or0 Map.empty (m - 1) = Fin 0" by (simp add: get_or0_def)
    have princ: "clamp_principal 1 ((10001 - real_of_int m) * 0) (10001 - real_of_int m) = 1"
      using m by (simp add: clamp_principal_def)
    have bal': "bal ?w' = Fin (10001 - real_of_int (m + 1))"
      using apply_month_bal_real[OF less.prems(1-3) zero zero, of Map.empty] princ
      by (simp add: apply_net_def)
    have rate': "monthlyRate ?w' = Fin 0"
      using less.prems(2) by (simp add: apply_month_monthlyRate)
    have emi': "currentEMI ?w' = Fin 1"
      using less.prems(3)
      by (simp add: apply_month_currentEMI policy_emi_def emi_recomputed_def zero num_sub_def
            num_gt_def)
    have "month_principal w = Fin 1"
      using month_principal_real[OF less.prems(1-3)] princ by simp
    then have go: "\<not> snd (apply_month Map.empty Map.empty Map.empty m w)"
      by (simp add: apply_month_breaks[of Map.empty Map.empty Map.empty m w])
    have "length (walk_months Map.empty Map.empty Map.empty (m + 1) ?w') = nat (5001 - (m + 1))"
      using less.hyps[of "m + 1" ?w'] bal' rate' emi' m less.prems(4) by simp
    then show ?thesis using run go m by (simp add: walk_months_next)
  qed
qed

lemma capped_run:
  "length (currentSchedule (applyUserChanges (Fin 10000) (Fin 0) 10000
             Map.empty Map.empty Map.empty)) = 5000"
proof -
  have "length (walk_months Map.empty Map.empty Map.empty 1
                  (initial_walk (Fin 10000) (Fin 0) 10000)) = nat (5001 - 1)"
    by (rule capped_walk_months)
       (simp_all add: initial_walk_def or0_Fin Let_def calculateEMI_finite_inputs)
  then show ?thesis by (simp add: run_length run_months_def)
qed

text \<open>
  \<^bold>\<open>C6.\<close> \<open>walk_loop\<close> is a total function: its recursion is proved to end, and no
  operation of the model fails. On inputs within the contract the schedule has at most
  5000 rows, one for each month the loop ran, and none when the loan amount is at most
  \<open>0.0001\<close>. A row is the last of the schedule exactly when the walk stops after it
  in one of three ways: its balance is at most \<open>0.0001\<close>; or it is row 5000, after
  which the month counter passes the cap; or the safety check fired on it, with a
  principal of absolute value under \<open>1e-12\<close>, no prepayment, no disbursement and a
  balance above \<open>0.0001\<close>. The walk returns the schedule in all three.
\<close>

theorem walk_ends_within_cap:
  assumes "0 \<le> P" "0 \<le> a" "non_negative D" "non_negative Pm" "non_negative R"
  shows "length (currentSchedule (applyUserChanges (Fin P) (Fin a) n D Pm R)) \<le> 5000 \<and>
    length (run_months (Fin P) (Fin a) n D Pm R) =
      length (currentSchedule (applyUserChanges (Fin P) (Fin a) n D Pm R)) \<and>
    (currentSchedule (applyUserChanges (Fin P) (Fin a) n D Pm R) = [] \<longleftrightarrow> P \<le> 0.0001) \<and>
    (\<forall>i < length (currentSchedule (applyUserChanges (Fin P) (Fin a) n D Pm R)).
       (Suc i = length (currentSchedule (applyUserChanges (Fin P) (Fin a) n D Pm R))) =
       (num_le (balance (currentSchedule (applyUserChanges (Fin P) (Fin a) n D Pm R) ! i))
          (Fin 0.0001) \<or>
        Suc i = 5000 \<or>
        stall_guard (currentSchedule (applyUserChanges (Fin P) (Fin a) n D Pm R) ! i))) \<and>
    (\<exists>b. bal (walk_loop D Pm R 1 (initial_walk (Fin P) (Fin a) n)) = Fin b \<and>
       (b \<le> 0.0001 \<or>
        length (currentSchedule (applyUserChanges (Fin P) (Fin a) n D Pm R)) = 5000 \<or>
        (currentSchedule (applyUserChanges (Fin P) (Fin a) n D Pm R) \<noteq> [] \<and>
         num_lt (Math_abs (principal (last (currentSchedule
                   (applyUserChanges (Fin P) (Fin a) n D Pm R))))) (Fin (1 / 10 ^ 12)) \<and>
         prepayment (last (currentSchedule (applyUserChanges (Fin P) (Fin a) n D Pm R))) = Fin 0 \<and>
         disbursement (last (currentSchedule (applyUserChanges (Fin P) (Fin a) n D Pm R))) = Fin 0 \<and>
         0.0001 < b)))"
proof -
  let ?S = "currentSchedule (applyUserChanges (Fin P) (Fin a) n D Pm R)"
  let ?ms = "run_months (Fin P) (Fin a) n D Pm R"
  let ?init = "initial_walk (Fin P) (Fin a) n"
  let ?end = "walk_loop D Pm R 1 ?init"
  have len: "length ?ms \<le> 5000"
    using walk_months_length[where D=D and Pm=Pm and R=R and m=1 and w="?init"]
    by (simp add: run_months_def SAFE_MONTH_CAP_def)
  have ms: "?ms = walk_months D Pm R 1 ?init" by (simp add: run_months_def)
  have none: "?S = [] \<longleftrightarrow> P \<le> 0.0001"
  proof -
    have "?S = [] \<longleftrightarrow> ?ms = []" by (simp add: run_schedule)
    also have "\<dots> \<longleftrightarrow> \<not> running 1 ?init" unfolding ms by (rule walk_months_empty_iff)
    also have "\<dots> \<longleftrightarrow> P \<le> 0.0001"
      by (auto simp add: running_def SAFE_MONTH_CAP_def initial_walk_def or0_Fin Let_def num_gt_def)
    finally show ?thesis .
  qed
  have stops: "(Suc i = length ?S) =
      (num_le (balance (?S ! i)) (Fin 0.0001) \<or> Suc i = 5000 \<or> stall_guard (?S ! i))"
    if i: "i < length ?S" for i
  proof -
    let ?m = "1 + int i"
    let ?wi = "snd (?ms ! i)"
    let ?wn = "fst (apply_month D Pm R ?m ?wi)"
    have im: "i < length ?ms" using i by (simp add: run_length)
    have nth: "?ms ! i = (?m, ?wi)"
      using run_months_counter[OF im] by (simp add: prod_eq_iff)
    have "sound ?wi" by (rule run_months_nth_sound[OF assms im])
    then have "sound ?wn" by (rule sound_apply_month[OF assms(3-5)])
    then obtain x where x: "bal ?wn = Fin x" "0 \<le> x"
      by (auto simp add: sound_def finite_nonneg_iff)
    have row: "?S ! i = emitted_row D Pm R ?m ?wi" by (rule run_row[OF im])
    have rowbal: "balance (?S ! i) = Fin x"
      using x row by (simp add: emitted_row_fields Math_max_def)
    have guard: "stall_guard (?S ! i) = snd (apply_month D Pm R ?m ?wi)"
      using stall_guard_emitted_row[of D Pm R ?m ?wi] x row by simp
    show ?thesis
    proof (cases "Suc i < length ?ms")
      case True
      have "\<not> snd (apply_month D Pm R ?m ?wi)"
        using walk_months_not_last[of i D Pm R 1 ?init] True run_months_counter[OF im]
        by (simp add: run_months_def)
      moreover have "(fst (?ms ! Suc i), snd (?ms ! Suc i)) \<in> set ?ms" using True by simp
      then have "running (fst (?ms ! Suc i)) (snd (?ms ! Suc i))"
        unfolding ms by (rule walk_months_running)
      then have "running (2 + int i) ?wn"
        using run_months_counter[OF True] run_months_step[OF True] by simp
      then have "int i + 2 \<le> 5000 \<and> 0.0001 < x"
        using x by (simp add: running_def SAFE_MONTH_CAP_def num_gt_def)
      ultimately show ?thesis using True rowbal guard by (simp add: run_length)
    next
      case False
      then have last_i: "Suc i = length ?ms" using im by simp
      have ne: "walk_months D Pm R 1 ?init \<noteq> []" using im ms by auto
      have "?ms \<noteq> []" using im by auto
      then have "last ?ms = ?ms ! (length ?ms - 1)" by (rule last_conv_nth)
      then have "last ?ms = ?ms ! i" using last_i[symmetric] by simp
      then have lst: "fst (last ?ms) = ?m" "snd (last ?ms) = ?wi"
        using run_months_counter[OF im] by simp_all
      have fin: "?end = ?wn"
        using walk_loop_last[OF ne] lst unfolding ms by simp
      have how: "snd (apply_month D Pm R ?m ?wi) \<or> \<not> running (?m + 1) ?end"
        using walk_loop_last[OF ne] lst unfolding ms by auto
      have "snd (apply_month D Pm R ?m ?wi) \<or> x \<le> 0.0001 \<or> Suc i = 5000"
        using how fin x last_i len
        by (auto simp add: running_def SAFE_MONTH_CAP_def num_gt_def)
      then show ?thesis using last_i rowbal guard by (auto simp add: run_length)
    qed
  qed
  have exits: "\<exists>b. bal ?end = Fin b \<and>
       (b \<le> 0.0001 \<or> length ?S = 5000 \<or>
        (?S \<noteq> [] \<and> num_lt (Math_abs (principal (last ?S))) (Fin (1 / 10 ^ 12)) \<and>
         prepayment (last ?S) = Fin 0 \<and> disbursement (last ?S) = Fin 0 \<and> 0.0001 < b))"
  proof (cases "?ms = []")
    case True
    then have "?end = ?init" "\<not> running 1 ?init"
      using walk_loop_empty[where D=D and Pm=Pm and R=R and m=1 and w="?init"] ms by simp_all
    then have "bal ?end = Fin P \<and> P \<le> 0.0001"
      by (simp add: running_def SAFE_MONTH_CAP_def initial_walk_def or0_Fin Let_def num_gt_def)
    then show ?thesis by blast
  next
    case False
    let ?m = "fst (last ?ms)"
    let ?wl = "snd (last ?ms)"
    have last_ms: "last ?ms = ?ms ! (length ?ms - 1)" using False by (simp add: last_conv_nth)
    have m: "?m = int (length ?ms)"
      using run_months_counter[of "length ?ms - 1" "Fin P" "Fin a" n D Pm R] False last_ms
      by (simp add: Suc_leI of_nat_diff)
    have "(?m, ?wl) \<in> set ?ms" using False by simp
    then have "sound ?wl" by (rule run_months_sound[OF assms])
    then have snd_sound: "sound (fst (apply_month D Pm R ?m ?wl))"
      by (rule sound_apply_month[OF assms(3-5)])
    have ne: "walk_months D Pm R 1 ?init \<noteq> []" using False ms by simp
    have fin: "?end = fst (apply_month D Pm R ?m ?wl)"
      using walk_loop_last[OF ne] unfolding ms by (rule conjunct1)
    have how: "snd (apply_month D Pm R ?m ?wl) \<or> \<not> running (?m + 1) ?end"
      using walk_loop_last[OF ne] unfolding ms by (rule conjunct2)
    obtain b where b: "bal ?end = Fin b"
      using snd_sound fin by (auto simp add: sound_def finite_nonneg_iff)
    have S: "?S \<noteq> []" "last ?S = emitted_row D Pm R ?m ?wl"
      using False by (simp_all add: run_schedule last_map case_prod_unfold)
    from how show ?thesis
    proof
      assume "snd (apply_month D Pm R ?m ?wl)"
      then have "num_lt (Math_abs (principal (last ?S))) (Fin (1 / 10 ^ 12)) \<and>
          prepayment (last ?S) = Fin 0 \<and> disbursement (last ?S) = Fin 0 \<and> 0.0001 < b"
        using b fin S(2)
        by (simp add: apply_month_breaks emitted_row_fields num_eq_def num_gt_def)
      then show ?thesis using b S(1) by blast
    next
      assume "\<not> running (?m + 1) ?end"
      then have "b \<le> 0.0001 \<or> length ?ms = 5000"
        using b m len by (auto simp add: running_def SAFE_MONTH_CAP_def num_gt_def)
      then show ?thesis using b by (auto simp add: run_length)
    qed
  qed
  show ?thesis using len none stops exits by (simp add: run_length)
qed

theorem walk_ends_within_cap_witness:
  "stall_guard (currentSchedule (applyUserChanges (Fin 1000) (Fin 0) 2
                  Map.empty Map.empty [0 \<mapsto> Fin 1200]) ! 1) \<and>
   balance (currentSchedule (applyUserChanges (Fin 1000) (Fin 0) 2
                  Map.empty Map.empty [0 \<mapsto> Fin 1200]) ! 1) = Fin 500 \<and>
   length (currentSchedule (applyUserChanges (Fin 1000) (Fin 0) 2
                  Map.empty Map.empty [0 \<mapsto> Fin 1200])) = 2 \<and>
   length (currentSchedule (applyUserChanges (Fin 10000) (Fin 0) 10000
                  Map.empty Map.empty Map.empty)) = 5000"
proof -
  let ?R = "[0 \<mapsto> Fin 1200] :: inputs"
  let ?S = "currentSchedule (applyUserChanges (Fin 1000) (Fin 0) 2 Map.empty Map.empty ?R)"
  have len: "1 < length ?S" by (simp add: run_eval)
  have row: "stall_guard (?S ! 1)" "balance (?S ! 1) = Fin 500"
    by (simp_all add: stall_guard_def run_eval)
  have "\<forall>i < length ?S. (Suc i = length ?S) =
      (num_le (balance (?S ! i)) (Fin 0.0001) \<or> Suc i = 5000 \<or> stall_guard (?S ! i))"
    using walk_ends_within_cap[of 1000 0 Map.empty Map.empty ?R 2, OF _ _ non_negative_empty
        non_negative_empty non_negative_single]
    by simp
  then have "Suc 1 = length ?S" using len row(1) by blast
  then show ?thesis using row capped_run by simp
qed

section \<open>Degenerate inputs\<close>

lemma baseline_loop_stop: "\<not> i \<le> n \<Longrightarrow> baseline_loop r e n i v = v"
  by (subst baseline_loop.simps) simp

lemma generateBaseline_no_tenure: "n \<le> 0 \<Longrightarrow> fst (generateBaseline la rs n) = []"
  by (simp add: generateBaseline_def baseline_loop_stop Let_def)

lemma applyUserChanges_no_principal:
  assumes "p \<le> 0"
  shows "currentSchedule (applyUserChanges (Fin p) rs n D Pm R) = []"
proof -
  have "\<not> running 1 (initial_walk (Fin p) rs n)"
    using assms by (simp add: running_def initial_walk_def or0_Fin Let_def num_gt_def)
  then have "run_months (Fin p) rs n D Pm R = []"
    unfolding run_months_def by (rule walk_months_stop)
  then show ?thesis by (simp add: run_schedule)
qed

text \<open>
  \<^bold>\<open>C9\<close>, as stated, fails: with a tenure of 0 and a positive loan amount the walk of
  \<open>applyUserChanges\<close> still produces a row, its instalment computed over 1 month.
\<close>

theorem degenerate_input_counterexample:
  "currentSchedule (applyUserChanges (Fin 1000) (Fin 0) 0 Map.empty Map.empty Map.empty) \<noteq> []"
  by (simp add: run_eval)

text \<open>
  \<^bold>\<open>C9\<close>, amended. \<open>calculateEMI\<close> returns 0 when the months or the principal are zero
  or negative. \<open>generateBaseline\<close> produces no rows when the tenure is zero or negative.
  \<open>applyUserChanges\<close> produces no rows when the loan amount is zero or negative; for a
  tenure that is zero or negative it computes its first instalment over 1 month.
\<close>

theorem degenerate_input:
  "(n \<le> 0 \<or> p \<le> 0 \<longrightarrow> calculateEMI (Fin p) (Fin r) n = Fin 0) \<and>
   (n \<le> 0 \<longrightarrow> fst (generateBaseline la rs n) = []) \<and>
   (p \<le> 0 \<longrightarrow> currentSchedule (applyUserChanges (Fin p) rs n D Pm R) = []) \<and>
   (n \<le> 0 \<longrightarrow> currentEMI (initial_walk la rs n) =
      calculateEMI (or0 la) (num_div (num_div rs (Fin 12)) (Fin 100)) 1)"
  using generateBaseline_no_tenure[of n la rs] applyUserChanges_no_principal[of p rs n D Pm R]
  by (simp add: calculateEMI_finite_inputs initial_walk_def Let_def max_def)

theorem degenerate_input_witness:
  "calculateEMI (Fin (- 5)) (Fin 1) 0 = Fin 0 \<and>
   fst (generateBaseline (Fin 1000) (Fin 12) 0) = [] \<and>
   currentSchedule (applyUserChanges (Fin (- 5)) (Fin 12) 0 Map.empty Map.empty Map.empty) = [] \<and>
   currentEMI (initial_walk (Fin 1000) (Fin 0) 0) = Fin 1000"
  using degenerate_input[of 0 "- 5" 1 "Fin 1000" "Fin 12" Map.empty Map.empty Map.empty]
    degenerate_input[of 0 1 1 "Fin 1000" "Fin 0" Map.empty Map.empty Map.empty]
  by (simp add: or0_Fin calculateEMI_finite_inputs)

section \<open>A prepayment larger than the balance\<close>

text \<open>
  \<^bold>\<open>C10.\<close> On inputs within the contract, in a month whose prepayment \<open>p\<close> exceeds
  what is left of the opening balance \<open>b\<close> after the month's principal, together with
  the month's disbursement \<open>d\<close>, the balance after the month and the row's balance are
  0, and the row records the whole prepayment \<open>p\<close> as entered, which is more than was
  applied.
\<close>

theorem prepayment_excess_dropped:
  assumes "0 \<le> P" "0 \<le> a" "non_negative D" "non_negative Pm" "non_negative R"
    and "i < length (currentSchedule (applyUserChanges (Fin P) (Fin a) n D Pm R))"
    and "run_months (Fin P) (Fin a) n D Pm R ! i = (m, w)"
    and "bal w = Fin b" "get_or0 D (int i) = Fin d" "get_or0 Pm (int i) = Fin p"
    and "principal (currentSchedule (applyUserChanges (Fin P) (Fin a) n D Pm R) ! i) = Fin princ"
    and "b - princ + d < p"
  shows "balance (currentSchedule (applyUserChanges (Fin P) (Fin a) n D Pm R) ! i) = Fin 0 \<and>
         bal (fst (apply_month D Pm R m w)) = Fin 0 \<and>
         prepayment (currentSchedule (applyUserChanges (Fin P) (Fin a) n D Pm R) ! i) = Fin p \<and>
         b - princ + d < p"
proof -
  let ?S = "currentSchedule (applyUserChanges (Fin P) (Fin a) n D Pm R)"
  obtain w' b' r e d' p' where f:
    "run_months (Fin P) (Fin a) n D Pm R ! i = (1 + int i, w')"
    "bal w' = Fin b'" "get_or0 D (int i) = Fin d'" "get_or0 Pm (int i) = Fin p'"
    "0 \<le> b'"
    "?S ! i = emitted_row D Pm R (1 + int i) w'"
    "bal (fst (apply_month D Pm R (1 + int i) w')) =
       Fin (apply_net (b' - clamp_principal e (b' * r) b') (d' - p'))"
    "principal (emitted_row D Pm R (1 + int i) w') = Fin (clamp_principal e (b' * r) b')"
    "balance (emitted_row D Pm R (1 + int i) w') =
       Fin (apply_net (b' - clamp_principal e (b' * r) b') (d' - p'))"
    using run_month_facts[OF assms(1-6)] by blast
  have same: "m = 1 + int i" "w' = w" "b' = b" "d' = d" "p' = p"
    "clamp_principal e (b' * r) b' = princ"
    using f assms(7-11) by simp_all
  have "princ \<le> b"
    using clamp_principal_bounds[OF f(5), of e "b' * r"] same by simp
  then have "apply_net (b - princ) (d - p) = 0"
    using assms(12) by (simp add: apply_net_def)
  then show ?thesis using f same assms(12) by (simp add: emitted_row_fields)
qed

theorem prepayment_excess_dropped_witness:
  "balance (currentSchedule (applyUserChanges (Fin 1000) (Fin 0) 2
              Map.empty [0 \<mapsto> Fin 5000] Map.empty) ! 0) = Fin 0 \<and>
   prepayment (currentSchedule (applyUserChanges (Fin 1000) (Fin 0) 2
              Map.empty [0 \<mapsto> Fin 5000] Map.empty) ! 0) = Fin 5000 \<and>
   (1000::real) - 500 + 0 < 5000"
proof -
  let ?Pm = "[0 \<mapsto> Fin 5000] :: inputs"
  let ?S = "currentSchedule (applyUserChanges (Fin 1000) (Fin 0) 2 Map.empty ?Pm Map.empty)"
  have len: "0 < length ?S" by (simp add: run_eval)
  have first: "run_months (Fin 1000) (Fin 0) 2 Map.empty ?Pm Map.empty ! 0 =
      (1, initial_walk (Fin 1000) (Fin 0) 2)"
    using len by (simp add: run_length run_months_def walk_months_first)
  have b: "bal (initial_walk (Fin 1000) (Fin 0) 2) = Fin 1000"
    by (simp add: initial_walk_def or0_Fin Let_def)
  have d: "get_or0 Map.empty (int 0) = Fin 0" and p: "get_or0 ?Pm (int 0) = Fin 5000"
    by (simp_all add: get_or0_def or0_Fin)
  have princ: "principal (?S ! 0) = Fin 500" by (simp add: run_eval)
  show ?thesis
    using prepayment_excess_dropped[of 1000 0 Map.empty ?Pm Map.empty 0 2 1
        "initial_walk (Fin 1000) (Fin 0) 2" 1000 0 5000 500,
        OF _ _ non_negative_empty non_negative_single non_negative_empty len first b d p princ]
    by simp
qed

section \<open>Rows in exact arithmetic\<close>

text \<open>
  The numbers of this model do not round. In exact arithmetic, on inputs within the
  contract, every row holds finite numbers, with an interest that is not negative, a
  principal between 0 and the opening balance, and a balance that is not negative; and
  an infinite answer of \<open>calculateRemainingMonths\<close> leaves the target where it was.
  Nothing follows from this about the doubles of the program where they round: for a
  monthly rate \<open>r\<close> so small that the double \<open>1 + r\<close> is 1, \<open>Math.pow(1 + r, months) - 1\<close>
  is 0 and \<open>calculateEMI\<close> divides by it.
\<close>

lemma retarget_infinite: "retarget m PInf target = target"
  by (simp add: retarget_def)

lemma rows_exact:
  assumes "0 \<le> P" "0 \<le> a" "non_negative D" "non_negative Pm" "non_negative R"
    and "i < length (currentSchedule (applyUserChanges (Fin P) (Fin a) n D Pm R))"
  shows "\<exists>b e it pr bl.
      (if i = 0 then Fin P
       else balance (currentSchedule (applyUserChanges (Fin P) (Fin a) n D Pm R) ! (i - 1))) = Fin b \<and>
      emi (currentSchedule (applyUserChanges (Fin P) (Fin a) n D Pm R) ! i) = Fin e \<and>
      interest (currentSchedule (applyUserChanges (Fin P) (Fin a) n D Pm R) ! i) = Fin it \<and>
      0 \<le> it \<and>
      principal (currentSchedule (applyUserChanges (Fin P) (Fin a) n D Pm R) ! i) = Fin pr \<and>
      0 \<le> pr \<and> pr \<le> b \<and>
      balance (currentSchedule (applyUserChanges (Fin P) (Fin a) n D Pm R) ! i) = Fin bl \<and>
      0 \<le> bl"
proof -
  let ?S = "currentSchedule (applyUserChanges (Fin P) (Fin a) n D Pm R)"
  obtain w b r e d p where f:
    "run_months (Fin P) (Fin a) n D Pm R ! i = (1 + int i, w)"
    "bal w = Fin b" "0 \<le> b" "monthlyRate w = Fin r" "0 \<le> r" "currentEMI w = Fin e"
    "?S ! i = emitted_row D Pm R (1 + int i) w"
    "interest (emitted_row D Pm R (1 + int i) w) = Fin (b * r)"
    "principal (emitted_row D Pm R (1 + int i) w) = Fin (clamp_principal e (b * r) b)"
    "balance (emitted_row D Pm R (1 + int i) w) =
       Fin (apply_net (b - clamp_principal e (b * r) b) (d - p))"
    using run_month_facts[OF assms] by blast
  have i: "i < length (run_months (Fin P) (Fin a) n D Pm R)"
    using assms(6) by (simp add: run_length)
  have start: "(if i = 0 then Fin P else balance (?S ! (i - 1))) = Fin b"
    using run_opening_balance[OF assms(1-5) i] f(1,2) by simp
  have "isFinite (currentEMI (fst (apply_month D Pm R (1 + int i) w)))"
    using f(6) by (simp add: apply_month_isFinite_currentEMI)
  then obtain e' where e': "emi (?S ! i) = Fin e'"
    using f(7) by (auto simp add: emitted_row_fields isFinite_iff)
  have clamp: "0 \<le> clamp_principal e (b * r) b" "clamp_principal e (b * r) b \<le> b"
    using clamp_principal_bounds[OF f(3), of e "b * r"] by simp_all
  then have "0 \<le> apply_net (b - clamp_principal e (b * r) b) (d - p)"
    by (simp add: apply_net_nonneg)
  then have "(if i = 0 then Fin P else balance (?S ! (i - 1))) = Fin b \<and>
      emi (?S ! i) = Fin e' \<and> interest (?S ! i) = Fin (b * r) \<and> 0 \<le> b * r \<and>
      principal (?S ! i) = Fin (clamp_principal e (b * r) b) \<and>
      0 \<le> clamp_principal e (b * r) b \<and> clamp_principal e (b * r) b \<le> b \<and>
      balance (?S ! i) = Fin (apply_net (b - clamp_principal e (b * r) b) (d - p)) \<and>
      0 \<le> apply_net (b - clamp_principal e (b * r) b) (d - p)"
    using start e' f clamp by simp
  then show ?thesis by blast
qed

text \<open>
  With a negative loan amount and a tenure of 1, \<open>generateBaseline\<close> pushes one row,
  whose principal is the negative balance.
\<close>

lemma generateBaseline_negative_principal:
  "fst (generateBaseline (Fin (- 5)) (Fin 0) 1) =
     [\<lparr>monthIndex = 1, emi = Fin 0, interest = Fin 0, principal = Fin (- 5),
        disbursement = Fin 0, prepayment = Fin 0, roiChange = None, balance = Fin 0\<rparr>]"
  by (simp add: generateBaseline_def baseline_month_def baseline_loop.simps run_eval)

end
